theory Spec2Isabelle
  imports Complex_Main
begin

section \<open>Python values\<close>

text \<open>
  The loader works on the document that \<^verbatim>\<open>json.load\<close> returns and on the flat
  dictionaries it builds from it. A value is \<^verbatim>\<open>None\<close>, a boolean, an integer
  (unbounded), a float, a string, a list, a dictionary with string keys (kept in
  insertion order, as Python does), or the \<^verbatim>\<open>datetime\<close> that
  \<^verbatim>\<open>parse_datetime\<close> produces. A float is represented by the real number it
  denotes: rounding to binary64, infinities and NaN are outside the model.
\<close>

record datetime =
  year :: nat
  month :: nat
  day :: nat
  hour :: nat
  minute :: nat
  second :: nat

datatype pyval =
    PNone
  | PBool bool
  | PInt int
  | PFloat real
  | PStr string
  | PList "pyval list"
  | PDict "(string \<times> pyval) list"
  | PDatetime datetime

text \<open>
  The exceptions the program can meet, by their Python class. \<^verbatim>\<open>StoreError\<close>
  stands for \<^verbatim>\<open>psycopg2.Error\<close>, \<^verbatim>\<open>SystemExit\<close> is what
  \<^verbatim>\<open>argparse\<close> raises on a bad command line.
\<close>

datatype exc =
    KeyError pyval
  | TypeError
  | ValueError
  | AttributeError
  | OSError
  | StoreError
  | UnboundLocalError
  | SystemExit

fun exc_name :: "exc \<Rightarrow> string" where
  "exc_name (KeyError k) = ''KeyError''"
| "exc_name TypeError = ''TypeError''"
| "exc_name ValueError = ''ValueError''"
| "exc_name AttributeError = ''AttributeError''"
| "exc_name OSError = ''OSError''"
| "exc_name StoreError = ''Error''"
| "exc_name UnboundLocalError = ''UnboundLocalError''"
| "exc_name SystemExit = ''SystemExit''"

text \<open>
  \<^verbatim>\<open>except Exception\<close> catches every class above but \<^verbatim>\<open>SystemExit\<close>,
  which derives from \<^verbatim>\<open>BaseException\<close> only.
\<close>

fun is_Exception :: "exc \<Rightarrow> bool" where
  "is_Exception SystemExit = False"
| "is_Exception e = True"

text \<open>Sequencing of computations that may raise: the first exception wins.\<close>

definition bindE :: "exc + 'a \<Rightarrow> ('a \<Rightarrow> exc + 'b) \<Rightarrow> exc + 'b" where
  "bindE m f = (case m of Inl e \<Rightarrow> Inl e | Inr x \<Rightarrow> f x)"

type_synonym row = "(string \<times> pyval) list"

text \<open>
  A dictionary display \<^verbatim>\<open>{k1: e1, k2: e2, ...}\<close> evaluates its entries from left
  to right; the first expression that raises ends the evaluation.
\<close>

fun dict_display :: "(string \<times> (exc + pyval)) list \<Rightarrow> exc + row" where
  "dict_display [] = Inr []"
| "dict_display ((k, e) # es) =
     (case e of
        Inl x \<Rightarrow> Inl x
      | Inr v \<Rightarrow> (case dict_display es of Inl x \<Rightarrow> Inl x | Inr r \<Rightarrow> Inr ((k, v) # r)))"

text \<open>\<^verbatim>\<open>d.get(k, dflt)\<close>: only a dictionary has the method.\<close>

definition py_get :: "pyval \<Rightarrow> string \<Rightarrow> pyval \<Rightarrow> exc + pyval" where
  "py_get d k dflt =
     (case d of
        PDict kvs \<Rightarrow> Inr (case map_of kvs k of Some v \<Rightarrow> v | None \<Rightarrow> dflt)
      | _ \<Rightarrow> Inl AttributeError)"

text \<open>
  \<^verbatim>\<open>d[k]\<close> with a string key: \<^verbatim>\<open>KeyError\<close> on a dictionary without the
  key, \<^verbatim>\<open>TypeError\<close> on every other value of a document.
\<close>

definition py_item :: "pyval \<Rightarrow> string \<Rightarrow> exc + pyval" where
  "py_item d k =
     (case d of
        PDict kvs \<Rightarrow> (case map_of kvs k of Some v \<Rightarrow> Inr v | None \<Rightarrow> Inl (KeyError (PStr k)))
      | _ \<Rightarrow> Inl TypeError)"

text \<open>
  What a \<^verbatim>\<open>for\<close> loop iterates over: the elements of a list, the keys of a
  dictionary, the characters of a string; other values are not iterable.
\<close>

fun py_iter :: "pyval \<Rightarrow> exc + pyval list" where
  "py_iter (PList xs) = Inr xs"
| "py_iter (PDict kvs) = Inr (map (\<lambda>kv. PStr (fst kv)) kvs)"
| "py_iter (PStr s) = Inr (map (\<lambda>c. PStr [c]) s)"
| "py_iter v = Inl TypeError"

text \<open>Truthiness, \<^verbatim>\<open>bool(v)\<close>.\<close>

fun truthy :: "pyval \<Rightarrow> bool" where
  "truthy PNone = False"
| "truthy (PBool b) = b"
| "truthy (PInt n) = (n \<noteq> 0)"
| "truthy (PFloat x) = (x \<noteq> 0)"
| "truthy (PStr s) = (s \<noteq> [])"
| "truthy (PList xs) = (xs \<noteq> [])"
| "truthy (PDict kvs) = (kvs \<noteq> [])"
| "truthy (PDatetime d) = True"

text \<open>\<^verbatim>\<open>a or b\<close>: \<^verbatim>\<open>b\<close> is evaluated only when \<^verbatim>\<open>a\<close> is falsy.\<close>

definition py_or :: "exc + pyval \<Rightarrow> exc + pyval \<Rightarrow> exc + pyval" where
  "py_or a b = (case a of Inl e \<Rightarrow> Inl e | Inr v \<Rightarrow> if truthy v then Inr v else b)"

text \<open>
  \<^verbatim>\<open>str.lower\<close> on the bytes of a string: the letters A to Z are mapped, every
  other byte is kept.
\<close>

definition lower_char :: "char \<Rightarrow> char" where
  "lower_char c =
     (case map_of (zip ''ABCDEFGHIJKLMNOPQRSTUVWXYZ'' ''abcdefghijklmnopqrstuvwxyz'') c of
        Some l \<Rightarrow> l
      | None \<Rightarrow> c)"

definition lower :: "string \<Rightarrow> string" where
  "lower s = map lower_char s"

text \<open>
  \<^verbatim>\<open>int(v)\<close> and \<^verbatim>\<open>float(v)\<close>. How Python reads a number from a string
  is the interpreter's business, not the loader's: the two readers are parameters of
  the model (\<open>None\<close> where Python raises \<^verbatim>\<open>ValueError\<close>).
\<close>

record pylib =
  int_of_str :: "string \<Rightarrow> int option"
  float_of_str :: "string \<Rightarrow> real option"

fun py_int :: "pylib \<Rightarrow> pyval \<Rightarrow> exc + pyval" where
  "py_int lib (PBool b) = Inr (PInt (if b then 1 else 0))"
| "py_int lib (PInt n) = Inr (PInt n)"
| "py_int lib (PFloat x) = Inr (PInt (if 0 \<le> x then \<lfloor>x\<rfloor> else \<lceil>x\<rceil>))"
| "py_int lib (PStr s) =
     (case int_of_str lib s of Some n \<Rightarrow> Inr (PInt n) | None \<Rightarrow> Inl ValueError)"
| "py_int lib v = Inl TypeError"

fun py_float :: "pylib \<Rightarrow> pyval \<Rightarrow> exc + pyval" where
  "py_float lib (PBool b) = Inr (PFloat (if b then 1 else 0))"
| "py_float lib (PInt n) = Inr (PFloat (of_int n))"
| "py_float lib (PFloat x) = Inr (PFloat x)"
| "py_float lib (PStr s) =
     (case float_of_str lib s of Some x \<Rightarrow> Inr (PFloat x) | None \<Rightarrow> Inl ValueError)"
| "py_float lib v = Inl TypeError"

section \<open>Timestamps\<close>

text \<open>
  \<^verbatim>\<open>datetime.strptime(s, "%a %b %d %H:%M:%S GMT %Y")\<close> in the C locale, on ASCII
  input. The library turns the format into a regular expression, matched without
  regard to case from the start of the string:
  \<^item> \<^verbatim>\<open>%a\<close> and \<^verbatim>\<open>%b\<close> are the three-letter weekday and month names;
  \<^item> a blank of the format is \<^verbatim>\<open>\s+\<close>, one or more white-space characters;
  \<^item> \<^verbatim>\<open>%d\<close> is \<^verbatim>\<open>3[0-1]|[1-2]\d|0[1-9]|[1-9]| [1-9]\<close>, \<^verbatim>\<open>%H\<close> is
    \<^verbatim>\<open>2[0-3]|[0-1]\d|\d\<close>, \<^verbatim>\<open>%M\<close> is \<^verbatim>\<open>[0-5]\d|\d\<close>, \<^verbatim>\<open>%S\<close> is
    \<^verbatim>\<open>6[0-1]|[0-5]\d|\d\<close>: one or two digits whose value lies in a range, since
    what follows each of them in this format is not a digit;
  \<^item> \<^verbatim>\<open>%Y\<close> is \<^verbatim>\<open>\d\d\d\d\<close>, and nothing may follow the match.
  The weekday is matched and then ignored. The date and the time must exist
  (\<^verbatim>\<open>ValueError\<close> otherwise, as for no match); an argument that is not a string
  is a \<^verbatim>\<open>TypeError\<close>.
\<close>

definition is_space :: "char \<Rightarrow> bool" where
  "is_space c \<longleftrightarrow>
     c \<in> set [CHR '' '', CHR 0x09, CHR 0x0A, CHR 0x0B, CHR 0x0C, CHR 0x0D,
               CHR 0x1C, CHR 0x1D, CHR 0x1E, CHR 0x1F]"

definition digit_of :: "char \<Rightarrow> nat option" where
  "digit_of c = map_of (zip ''0123456789'' [0, 1, 2, 3, 4, 5, 6, 7, 8, 9]) c"

definition is_digit :: "char \<Rightarrow> bool" where
  "is_digit c \<longleftrightarrow> digit_of c \<noteq> None"

fun digits_val :: "nat \<Rightarrow> string \<Rightarrow> nat" where
  "digits_val acc [] = acc"
| "digits_val acc (c # cs) = digits_val (10 * acc + (case digit_of c of Some d \<Rightarrow> d | None \<Rightarrow> 0)) cs"

definition weekday_names :: "string list" where
  "weekday_names = [''mon'', ''tue'', ''wed'', ''thu'', ''fri'', ''sat'', ''sun'']"

definition month_names :: "string list" where
  "month_names = [''jan'', ''feb'', ''mar'', ''apr'', ''may'', ''jun'',
                  ''jul'', ''aug'', ''sep'', ''oct'', ''nov'', ''dec'']"

fun index_of :: "'a \<Rightarrow> 'a list \<Rightarrow> nat option" where
  "index_of x [] = None"
| "index_of x (y # ys) = (if x = y then Some 0 else map_option Suc (index_of x ys))"

text \<open>One of the names of a list at the head of the input: its position and the rest.\<close>

definition match_name :: "string list \<Rightarrow> string \<Rightarrow> (nat \<times> string) option" where
  "match_name names s =
     (if length s < 3 then None
      else map_option (\<lambda>i. (i, drop 3 s)) (index_of (lower (take 3 s)) names))"

text \<open>\<^verbatim>\<open>\s+\<close>.\<close>

definition match_spaces :: "string \<Rightarrow> string option" where
  "match_spaces s = (case s of [] \<Rightarrow> None | c # cs \<Rightarrow> if is_space c then Some (dropWhile is_space cs) else None)"

text \<open>A literal of the format, without regard to case.\<close>

definition match_lit :: "string \<Rightarrow> string \<Rightarrow> string option" where
  "match_lit lit s =
     (if length lit \<le> length s \<and> lower (take (length lit) s) = lower lit
      then Some (drop (length lit) s) else None)"

text \<open>One or two digits with a value from \<open>lo\<close> to \<open>hi\<close>.\<close>

definition match_num :: "nat \<Rightarrow> nat \<Rightarrow> string \<Rightarrow> (nat \<times> string) option" where
  "match_num lo hi s =
     (let ds = takeWhile is_digit s; n = digits_val 0 ds in
      if (length ds = 1 \<or> length ds = 2) \<and> lo \<le> n \<and> n \<le> hi
      then Some (n, dropWhile is_digit s) else None)"

text \<open>\<^verbatim>\<open>\d\d\d\d\<close>.\<close>

definition match_year :: "string \<Rightarrow> (nat \<times> string) option" where
  "match_year s =
     (if 4 \<le> length s \<and> list_all is_digit (take 4 s)
      then Some (digits_val 0 (take 4 s), drop 4 s) else None)"

definition match_gmt :: "string \<Rightarrow> datetime option" where
  "match_gmt s =
     Option.bind (match_name weekday_names s) (\<lambda>(wd, s).
     Option.bind (match_spaces s) (\<lambda>s.
     Option.bind (match_name month_names s) (\<lambda>(mo, s).
     Option.bind (match_spaces s) (\<lambda>s.
     Option.bind (match_num 1 31 s) (\<lambda>(d, s).
     Option.bind (match_spaces s) (\<lambda>s.
     Option.bind (match_num 0 23 s) (\<lambda>(h, s).
     Option.bind (match_lit '':'' s) (\<lambda>s.
     Option.bind (match_num 0 59 s) (\<lambda>(mi, s).
     Option.bind (match_lit '':'' s) (\<lambda>s.
     Option.bind (match_num 0 61 s) (\<lambda>(se, s).
     Option.bind (match_spaces s) (\<lambda>s.
     Option.bind (match_lit ''GMT'' s) (\<lambda>s.
     Option.bind (match_spaces s) (\<lambda>s.
     Option.bind (match_year s) (\<lambda>(y, s).
       if s = [] then
         Some \<lparr>year = y, month = Suc mo, day = d, hour = h, minute = mi, second = se\<rparr>
       else None)))))))))))))))"

definition leap_year :: "nat \<Rightarrow> bool" where
  "leap_year y \<longleftrightarrow> y mod 4 = 0 \<and> (y mod 100 \<noteq> 0 \<or> y mod 400 = 0)"

definition days_in_month :: "nat \<Rightarrow> nat \<Rightarrow> nat" where
  "days_in_month y m =
     (if m = 2 then (if leap_year y then 29 else 28)
      else if m = 4 \<or> m = 6 \<or> m = 9 \<or> m = 11 then 30 else 31)"

text \<open>What the constructor \<^verbatim>\<open>datetime(year, month, day, hour, minute, second)\<close> accepts.\<close>

definition valid_datetime :: "datetime \<Rightarrow> bool" where
  "valid_datetime t \<longleftrightarrow>
     1 \<le> year t \<and> year t \<le> 9999 \<and> 1 \<le> month t \<and> month t \<le> 12 \<and>
     1 \<le> day t \<and> day t \<le> days_in_month (year t) (month t) \<and>
     hour t \<le> 23 \<and> minute t \<le> 59 \<and> second t \<le> 59"

fun strptime_gmt :: "pyval \<Rightarrow> exc + datetime" where
  "strptime_gmt (PStr s) =
     (case match_gmt s of
        None \<Rightarrow> Inl ValueError
      | Some t \<Rightarrow> if valid_datetime t then Inr t else Inl ValueError)"
| "strptime_gmt v = Inl TypeError"

section \<open>Run metadata\<close>

text \<open>
  \<^verbatim>\<open>to_bool\<close> and \<^verbatim>\<open>parse_datetime\<close>, the helpers nested in
  \<^verbatim>\<open>parse_run_metadata\<close>.
\<close>

fun to_bool :: "pyval \<Rightarrow> bool" where
  "to_bool (PBool b) = b"
| "to_bool (PStr s) = (lower s \<in> set [''yes'', ''true'', ''1''])"
| "to_bool v = truthy v"

text \<open>\<^verbatim>\<open>try: return strptime(...)  except Exception: return None\<close>.\<close>

definition parse_datetime :: "pyval \<Rightarrow> exc + pyval" where
  "parse_datetime dt_str =
     (case strptime_gmt dt_str of
        Inr t \<Rightarrow> Inr (PDatetime t)
      | Inl e \<Rightarrow> if is_Exception e then Inr PNone else Inl e)"

definition run_metadata_fields :: "pylib \<Rightarrow> pyval \<Rightarrow> pyval \<Rightarrow> (string \<times> (exc + pyval)) list" where
  "run_metadata_fields lib header footer = [
       (''executer'', py_or (py_get footer ''executer'' PNone) (py_get header ''Executor'' PNone)),
       (''dna_file'', py_or (py_get footer ''DNAFile'' PNone) (py_get header ''DNAFile'' PNone)),
       (''selected'', py_get header ''Selected'' PNone),
       (''database'', py_or (py_get footer ''Database'' PNone) (py_get header ''Database'' PNone)),
       (''execution_duration'', bindE (py_get footer ''execution_duration'' (PInt 0)) (py_int lib)),
       (''selection_threshold'', bindE (py_get footer ''SelectionThreshold'' (PInt 0)) (py_float lib)),
       (''input_file'', py_or (py_get footer ''InputFile'' PNone) (py_get header ''InputFile'' (PStr []))),
       (''improve_hits_max'', bindE (py_get footer ''ImproveHitsMax'' (PInt 0)) (py_int lib)),
       (''conservation_factor'', bindE (py_get footer ''ConservationFactor'' (PInt 0)) (py_int lib)),
       (''subgene_hits_max'', bindE (py_get footer ''SubGeneHitsMax'' (PInt 0)) (py_int lib)),
       (''script_path'', py_get footer ''ScriptPath'' (PStr [])),
       (''max_subgene_skip'', bindE (py_get footer ''MaxSubGeneSkip'' (PInt 0)) (py_int lib)),
       (''strand'', py_get footer ''Strand'' (PStr [])),
       (''sdfactor'', bindE (py_get footer ''SDFactor'' (PBool False)) (\<lambda>v. Inr (PBool (to_bool v)))),
       (''broken_passes'', bindE (py_get footer ''BrokenPasses'' (PInt 0)) (py_int lib)),
       (''fit_puteins'', py_get footer ''FitPuteins'' PNone),
       (''broken_penalty'', bindE (py_get footer ''BrokenPenalty'' (PInt 0)) (py_float lib)),
       (''final_selection_threshold'',
          bindE (py_get footer ''FinalSelectionThreshold'' (PInt 0)) (py_float lib)),
       (''keep_threshold'', bindE (py_get footer ''KeepThreshold'' (PInt 0)) (py_float lib)),
       (''frame_factor'', bindE (py_get footer ''FrameFactor'' (PInt 0)) (py_float lib)),
       (''length_bonus'', bindE (py_get footer ''LengthBonus'' (PInt 0)) (py_float lib)),
       (''orfid_min_score'', bindE (py_get footer ''ORFIDMinScore'' (PInt 0)) (py_int lib)),
       (''make_chains_files'', py_get footer ''MakeChainsFiles'' (PStr [])),
       (''debugging'', py_get footer ''Debugging'' PNone),
       (''script_input'', py_get footer ''script_input'' (PStr [])),
       (''run_datetime'', bindE (py_get footer ''run_datetime'' PNone) parse_datetime),
       (''retrotector_version'', py_get footer ''retrotector_version'' (PStr [])),
       (''db_name'', py_get footer ''db_name'' (PStr [])),
       (''db_last_modified_datetime'',
          bindE (py_get footer ''db_last_modified_datetime'' PNone) parse_datetime)
     ]"

definition parse_run_metadata :: "pylib \<Rightarrow> pyval \<Rightarrow> exc + row" where
  "parse_run_metadata lib json_data =
     bindE (py_get json_data ''header'' (PDict [])) (\<lambda>header.
     bindE (py_get json_data ''footer'' (PDict [])) (\<lambda>footer.
     dict_display (run_metadata_fields lib header footer)))"

section \<open>Field mappers\<close>

text \<open>
  A loop \<^verbatim>\<open>for x in xs: out.append(f(x))\<close>: the rows in source order, or the first
  exception.
\<close>

fun mapE :: "('a \<Rightarrow> exc + 'b) \<Rightarrow> 'a list \<Rightarrow> exc + 'b list" where
  "mapE f [] = Inr []"
| "mapE f (x # xs) =
     (case f x of
        Inl e \<Rightarrow> Inl e
      | Inr y \<Rightarrow> (case mapE f xs of Inl e \<Rightarrow> Inl e | Inr ys \<Rightarrow> Inr (y # ys)))"

subsection \<open>LTRs\<close>

definition solo_ltr_fields :: "pyval \<Rightarrow> (string \<times> (exc + pyval)) list" where
  "solo_ltr_fields entry = [
     (''herv_chain_index'', Inr PNone),
     (''is_primary'', py_get entry ''primary'' (PBool False)),
     (''ltr_type'', Inr (PStr ''solo'')),
     (''factor_score'', Inr PNone),
     (''virus_genus'', Inr PNone),
     (''peak_loc'', py_get entry ''peak_loc'' PNone),
     (''init_idx'', py_item entry ''init_idx''),
     (''fin_idx'', py_item entry ''fin_idx''),
     (''adenylation_loc'', py_get entry ''adenylation_loc'' PNone),
     (''adenylation_seq'', py_get entry ''adenylation_seq'' PNone),
     (''u5nn_score'', py_get entry ''U5NN_score'' PNone),
     (''u5nn_idx'', py_get entry ''U5NN_loc'' PNone),
     (''gtmodifier_score'', py_get entry ''GT_score'' PNone),
     (''u3nn_score'', py_get entry ''U3NN_score'' PNone),
     (''u3nn_idx'', py_get entry ''U3NN_loc'' PNone),
     (''tataa_score'', py_get entry ''TATAA_score'' PNone),
     (''tataa_idx'', py_get entry ''TATAA_loc'' PNone),
     (''meme50_score'', py_get entry ''MEME50_score'' PNone),
     (''meme50_idx'', py_get entry ''MEME50_loc'' PNone),
     (''motifs1_score'', py_get entry ''Mot1_score'' PNone),
     (''motifs1_idx'', py_get entry ''Mot1_loc'' PNone),
     (''motifs2_score'', py_get entry ''Mot2_score'' PNone),
     (''motifs2_idx'', py_get entry ''Mot2_loc'' PNone),
     (''transsites_score'', py_get entry ''Trans_score'' PNone),
     (''cpgmodifier_score'', py_get entry ''CpG_score'' PNone),
     (''spl8modifier_score'', py_get entry ''Spl8_score'' PNone),
     (''limiters'', Inr PNone),
     (''tsd5'', py_get entry ''TSD5'' PNone),
     (''tsd3'', py_get entry ''TSD3'' PNone),
     (''similarity_start'', Inr PNone),
     (''similarity_end'', Inr PNone)]"

definition solo_ltr_entry :: "pyval \<Rightarrow> exc + row" where
  "solo_ltr_entry entry = dict_display (solo_ltr_fields entry)"

definition chain_ltr_fields :: "nat \<Rightarrow> pyval \<Rightarrow> (string \<times> (exc + pyval)) list" where
  "chain_ltr_fields chain_index entry = [
     (''herv_chain_index'', Inr (PInt (int chain_index))),
     (''is_primary'', py_get entry ''primary'' (PBool False)),
     (''ltr_type'', py_get entry ''LTR_type'' PNone),
     (''factor_score'', py_get entry ''factor_score'' PNone),
     (''virus_genus'', py_get entry ''virus_genus'' PNone),
     (''peak_loc'', Inr PNone),
     (''init_idx'', py_item entry ''init_idx''),
     (''fin_idx'', py_item entry ''fin_idx''),
     (''adenylation_loc'', py_get entry ''adenylation_loc'' PNone),
     (''adenylation_seq'', py_get entry ''adenylation_seq'' PNone),
     (''u5nn_score'', py_get entry ''U5NN_score'' PNone),
     (''u5nn_idx'', py_get entry ''U5NN_idx'' PNone),
     (''gtmodifier_score'', py_get entry ''GTModifier_score'' PNone),
     (''u3nn_score'', py_get entry ''U3NN_score'' PNone),
     (''u3nn_idx'', py_get entry ''U3NN_idx'' PNone),
     (''tataa_score'', py_get entry ''TATAA_score'' PNone),
     (''tataa_idx'', py_get entry ''TATAA_idx'' PNone),
     (''meme50_score'', py_get entry ''MEME50_score'' PNone),
     (''meme50_idx'', py_get entry ''MEME50_idx'' PNone),
     (''motifs1_score'', py_get entry ''Motifs1_score'' PNone),
     (''motifs1_idx'', py_get entry ''Motifs1_idx'' PNone),
     (''motifs2_score'', py_get entry ''Motifs2_score'' PNone),
     (''motifs2_idx'', py_get entry ''Motifs2_idx'' PNone),
     (''transsites_score'', py_get entry ''Transsites_score'' PNone),
     (''cpgmodifier_score'', py_get entry ''CpGModifier_score'' PNone),
     (''spl8modifier_score'', py_get entry ''Spl8Modifier_score'' PNone),
     (''limiters'', py_get entry ''Limiters'' PNone),
     (''tsd5'', Inr PNone),
     (''tsd3'', Inr PNone),
     (''similarity_start'', py_get entry ''similarity_start'' PNone),
     (''similarity_end'', py_get entry ''similarity_end'' PNone)]"

definition chain_ltr_entry :: "nat \<Rightarrow> pyval \<Rightarrow> exc + row" where
  "chain_ltr_entry chain_index entry = dict_display (chain_ltr_fields chain_index entry)"

text \<open>The full LTRs of one chain: \<^verbatim>\<open>for entry in chain.get("LTRs", [])\<close>.\<close>

definition chain_ltrs :: "nat \<Rightarrow> pyval \<Rightarrow> exc + row list" where
  "chain_ltrs chain_index chain =
     bindE (py_get chain ''LTRs'' (PList [])) (\<lambda>v.
     bindE (py_iter v) (mapE (chain_ltr_entry chain_index)))"

text \<open>\<^verbatim>\<open>for chain_index, chain in enumerate(...)\<close>, from a given index on.\<close>

fun chains_ltrs :: "nat \<Rightarrow> pyval list \<Rightarrow> exc + row list" where
  "chains_ltrs chain_index [] = Inr []"
| "chains_ltrs chain_index (chain # rest) =
     (case chain_ltrs chain_index chain of
        Inl e \<Rightarrow> Inl e
      | Inr rs \<Rightarrow>
          (case chains_ltrs (Suc chain_index) rest of
             Inl e \<Rightarrow> Inl e
           | Inr rs' \<Rightarrow> Inr (rs @ rs')))"

definition parse_ltrs :: "pyval \<Rightarrow> exc + row list" where
  "parse_ltrs json_data =
     bindE (py_get json_data ''soloLTRs'' (PList [])) (\<lambda>v.
     bindE (py_iter v) (\<lambda>solo_entries.
     bindE (mapE solo_ltr_entry solo_entries) (\<lambda>solo.
     bindE (py_get json_data ''pseuGID'' (PList [])) (\<lambda>w.
     bindE (py_iter w) (\<lambda>chain_blocks.
     bindE (chains_ltrs 0 chain_blocks) (\<lambda>full. Inr (solo @ full)))))))"

subsection \<open>Chains\<close>

definition get_herv_chain_blocks :: "pyval \<Rightarrow> exc + pyval" where
  "get_herv_chain_blocks json_data = py_get json_data ''pseuGID'' (PList [])"

definition herv_chain_fields :: "pylib \<Rightarrow> pyval \<Rightarrow> (string \<times> (exc + pyval)) list" where
  "herv_chain_fields lib chain_block = [
     (''chain_level'', py_item chain_block ''chain_level''),
     (''chain_start_idx'', py_item chain_block ''chain_start_idx''),
     (''chain_end_idx'', py_item chain_block ''chain_end_idx''),
     (''retrovirus_type'', py_item chain_block ''retrovirus_type''),
     (''score'', bindE (py_item chain_block ''score'') (py_int lib)),
     (''type_of_chain'', py_item chain_block ''type_of_chain''),
     (''integration_sites'', py_get chain_block ''integration_sites'' PNone)]"

definition extract_herv_chain_metadata :: "pylib \<Rightarrow> pyval \<Rightarrow> exc + row" where
  "extract_herv_chain_metadata lib chain_block = dict_display (herv_chain_fields lib chain_block)"

subsection \<open>Subgenes and domains\<close>

definition subgene_fields :: "nat \<Rightarrow> pyval \<Rightarrow> (string \<times> (exc + pyval)) list" where
  "subgene_fields subgene_counter subgene = [
     (''subgene_index'', Inr (PInt (int subgene_counter))),
     (''name'', py_get subgene ''name'' PNone),
     (''type'', py_get subgene ''type'' PNone),
     (''score'', py_get subgene ''score'' PNone),
     (''hotspot'', py_get subgene ''hotspot'' PNone)]"

definition parsed_subgene :: "nat \<Rightarrow> pyval \<Rightarrow> exc + row" where
  "parsed_subgene subgene_counter subgene = dict_display (subgene_fields subgene_counter subgene)"

definition domain_fields :: "nat \<Rightarrow> pyval \<Rightarrow> (string \<times> (exc + pyval)) list" where
  "domain_fields subgene_counter domain = [
     (''subgene_index'', Inr (PInt (int subgene_counter))),
     (''idx'', py_get domain ''idx'' PNone),
     (''type'', py_get domain ''type'' PNone),
     (''origin'', py_get domain ''origin'' PNone),
     (''score'', py_get domain ''score'' PNone),
     (''hotspot'', py_get domain ''hotspot'' PNone),
     (''frame'', py_get domain ''frame'' PNone),
     (''pos_init'', py_get domain ''pos_init'' PNone),
     (''pos_fin'', py_get domain ''pos_fin'' PNone),
     (''match_input'', py_get domain ''match_input'' PNone),
     (''reference_match'', py_get domain ''reference_match'' PNone),
     (''n_bases'', py_get domain ''n_bases'' PNone)]"

definition parsed_domain :: "nat \<Rightarrow> pyval \<Rightarrow> exc + row" where
  "parsed_domain subgene_counter domain = dict_display (domain_fields subgene_counter domain)"

text \<open>
  The loop of \<^verbatim>\<open>parse_subgenes_and_domains\<close> from a given value of
  \<^verbatim>\<open>subgene_counter\<close> on: each subgene yields its own row, then the rows of its
  domains, then the counter is incremented.
\<close>

fun subgenes_loop :: "nat \<Rightarrow> pyval list \<Rightarrow> exc + (row list \<times> row list)" where
  "subgenes_loop subgene_counter [] = Inr ([], [])"
| "subgenes_loop subgene_counter (subgene # rest) =
     (case parsed_subgene subgene_counter subgene of
        Inl e \<Rightarrow> Inl e
      | Inr sg \<Rightarrow>
          (case bindE (py_get subgene ''domains'' (PList [])) (\<lambda>v.
                bindE (py_iter v) (mapE (parsed_domain subgene_counter))) of
             Inl e \<Rightarrow> Inl e
           | Inr ds \<Rightarrow>
               (case subgenes_loop (Suc subgene_counter) rest of
                  Inl e \<Rightarrow> Inl e
                | Inr (sgs, ds') \<Rightarrow> Inr (sg # sgs, ds @ ds'))))"

definition parse_subgenes_and_domains :: "pyval \<Rightarrow> exc + (row list \<times> row list)" where
  "parse_subgenes_and_domains chain_block =
     bindE (py_get chain_block ''subgenes'' (PList [])) (\<lambda>v.
     bindE (py_iter v) (subgenes_loop 0))"

subsection \<open>Motifs\<close>

definition motif_types :: "string list" where
  "motif_types = [''Slippery'', ''PseudoKnot'', ''SpliceAcceptor'', ''SpliceDonor'']"

definition motif_fields :: "string \<Rightarrow> pyval \<Rightarrow> (string \<times> (exc + pyval)) list" where
  "motif_fields motif_type motif = [
     (''type'', Inr (PStr motif_type)),
     (''pos_init'', py_get motif ''pos_init'' PNone),
     (''pos_end'', py_get motif ''pos_end'' PNone),
     (''score'', py_get motif ''score'' PNone)]"

definition motif_entry :: "string \<Rightarrow> pyval \<Rightarrow> exc + row" where
  "motif_entry motif_type motif = dict_display (motif_fields motif_type motif)"

text \<open>The inner loop, over the motifs under the key of one type.\<close>

definition motifs_of_type :: "pyval \<Rightarrow> string \<Rightarrow> exc + row list" where
  "motifs_of_type chain_block motif_type =
     bindE (py_get chain_block (motif_type @ ''_motifs'') (PList [])) (\<lambda>v.
     bindE (py_iter v) (mapE (motif_entry motif_type)))"

text \<open>The outer loop, over the types.\<close>

fun motifs_loop :: "pyval \<Rightarrow> string list \<Rightarrow> exc + row list" where
  "motifs_loop chain_block [] = Inr []"
| "motifs_loop chain_block (motif_type # types) =
     (case motifs_of_type chain_block motif_type of
        Inl e \<Rightarrow> Inl e
      | Inr ms \<Rightarrow>
          (case motifs_loop chain_block types of
             Inl e \<Rightarrow> Inl e
           | Inr ms' \<Rightarrow> Inr (ms @ ms')))"

definition parse_motifs :: "pyval \<Rightarrow> exc + row list" where
  "parse_motifs chain_block = motifs_loop chain_block motif_types"

section \<open>The store\<close>

text \<open>
  The database is an external collaborator. A connection holds the rows already
  committed and the rows of the open transaction; each stored row carries the
  identifier the store generated for it. What the store answers is a parameter:
  \<open>respond\<close> sees the rows visible to the transaction and the statement, and either
  rejects it (\<^verbatim>\<open>psycopg2.Error\<close>) or gives the new row's identifier
  (what \<^verbatim>\<open>RETURNING id\<close> and \<^verbatim>\<open>fetchone()[0]\<close> hand back);
  \<open>accept_commit\<close> says whether a commit goes through.
\<close>

datatype table = T_run_metadata | T_ltr | T_herv_chain | T_subgenes | T_domains | T_motifs

record stored =
  tbl :: table
  rid :: int
  cols :: row

record conn =
  respond :: "stored list \<Rightarrow> table \<Rightarrow> row \<Rightarrow> int option"
  accept_commit :: "stored list \<Rightarrow> stored list \<Rightarrow> bool"
  committed :: "stored list"
  pending :: "stored list"
  closed :: bool

text \<open>
  \<^verbatim>\<open>cur.execute(INSERT INTO t (columns) VALUES (values))\<close>: the columns are the
  keys of the dictionary, in its order.
\<close>

definition execute :: "table \<Rightarrow> row \<Rightarrow> conn \<Rightarrow> (exc + int) \<times> conn" where
  "execute t r c =
     (if closed c then (Inl StoreError, c)
      else
        (case respond c (committed c @ pending c) t r of
           None \<Rightarrow> (Inl StoreError, c)
         | Some i \<Rightarrow> (Inr i, c\<lparr>pending := pending c @ [\<lparr>tbl = t, rid = i, cols = r\<rparr>]\<rparr>)))"

text \<open>\<^verbatim>\<open>conn.commit()\<close>: a commit that fails rolls the transaction back.\<close>

definition commit :: "conn \<Rightarrow> (exc + unit) \<times> conn" where
  "commit c =
     (if closed c then (Inl StoreError, c)
      else if accept_commit c (committed c) (pending c)
      then (Inr (), c\<lparr>committed := committed c @ pending c, pending := []\<rparr>)
      else (Inl StoreError, c\<lparr>pending := []\<rparr>))"

text \<open>\<^verbatim>\<open>conn.close()\<close>: what was not committed is discarded.\<close>

definition close :: "conn \<Rightarrow> conn" where
  "close c = c\<lparr>pending := [], closed := True\<rparr>"

text \<open>Sequencing of steps that use the connection and may raise.\<close>

definition bindS ::
  "(conn \<Rightarrow> (exc + 'a) \<times> conn) \<Rightarrow> ('a \<Rightarrow> conn \<Rightarrow> (exc + 'b) \<times> conn) \<Rightarrow> conn \<Rightarrow> (exc + 'b) \<times> conn" where
  "bindS m f c = (case m c of (Inl e, c') \<Rightarrow> (Inl e, c') | (Inr x, c') \<Rightarrow> f x c')"

definition liftE :: "exc + 'a \<Rightarrow> conn \<Rightarrow> (exc + 'a) \<times> conn" where
  "liftE r c = (r, c)"

subsection \<open>Dictionary updates\<close>

text \<open>\<^verbatim>\<open>d[k] = v\<close>: an existing key keeps its place, a new key goes last.\<close>

fun dict_set :: "row \<Rightarrow> string \<Rightarrow> pyval \<Rightarrow> row" where
  "dict_set [] k v = [(k, v)]"
| "dict_set (kv # kvs) k v = (if fst kv = k then (k, v) # kvs else kv # dict_set kvs k v)"

text \<open>\<^verbatim>\<open>d.pop(k, None)\<close>, for the dictionary that is left.\<close>

definition dict_del :: "string \<Rightarrow> row \<Rightarrow> row" where
  "dict_del k kvs = filter (\<lambda>kv. fst kv \<noteq> k) kvs"

text \<open>\<^verbatim>\<open>d.pop(k)\<close>: the value and the dictionary that is left.\<close>

definition dict_pop :: "row \<Rightarrow> string \<Rightarrow> exc + (pyval \<times> row)" where
  "dict_pop kvs k =
     (case map_of kvs k of
        None \<Rightarrow> Inl (KeyError (PStr k))
      | Some v \<Rightarrow> Inr (v, dict_del k kvs))"

text \<open>
  A dictionary keyed by values: lists and dictionaries are unhashable, and numbers
  that compare equal (\<^verbatim>\<open>True == 1 == 1.0\<close>) are one key.
\<close>

fun py_key :: "pyval \<Rightarrow> exc + pyval" where
  "py_key (PList xs) = Inl TypeError"
| "py_key (PDict kvs) = Inl TypeError"
| "py_key (PBool b) = Inr (PInt (if b then 1 else 0))"
| "py_key (PFloat x) = Inr (if of_int \<lfloor>x\<rfloor> = x then PInt \<lfloor>x\<rfloor> else PFloat x)"
| "py_key v = Inr v"

section \<open>Insertion\<close>

definition insert_run_metadata :: "row \<Rightarrow> conn \<Rightarrow> (exc + int) \<times> conn" where
  "insert_run_metadata metadata =
     bindS (execute T_run_metadata metadata) (\<lambda>inserted_id.
     bindS commit (\<lambda>u. liftE (Inr inserted_id)))"

fun insert_ltrs_loop :: "row list \<Rightarrow> int \<Rightarrow> conn \<Rightarrow> (exc + unit) \<times> conn" where
  "insert_ltrs_loop [] herv_chain_id c = (Inr (), c)"
| "insert_ltrs_loop (ltr_entry # rest) herv_chain_id c =
     (case execute T_ltr
             (dict_set (dict_del ''herv_chain_index'' ltr_entry) ''herv_chain_id'' (PInt herv_chain_id)) c of
        (Inl e, c') \<Rightarrow> (Inl e, c')
      | (Inr inserted_id, c') \<Rightarrow> insert_ltrs_loop rest herv_chain_id c')"

definition insert_ltrs :: "row list \<Rightarrow> int \<Rightarrow> conn \<Rightarrow> (exc + unit) \<times> conn" where
  "insert_ltrs ltr_list herv_chain_id =
     bindS (insert_ltrs_loop ltr_list herv_chain_id) (\<lambda>u. commit)"

definition insert_herv_chain :: "row \<Rightarrow> int \<Rightarrow> conn \<Rightarrow> (exc + int) \<times> conn" where
  "insert_herv_chain herv_chain_entry run_metadata_pk =
     bindS (execute T_herv_chain (dict_set herv_chain_entry ''run_metadata_id'' (PInt run_metadata_pk)))
       (\<lambda>inserted_id.
     bindS commit (\<lambda>u. liftE (Inr inserted_id)))"

text \<open>
  The first loop of \<^verbatim>\<open>insert_subgenes_domains\<close>. It carries
  \<^verbatim>\<open>subgene_index_to_id\<close>, the dictionary from positional index to the identifier
  the store returned.
\<close>

fun insert_subgenes_loop ::
  "row list \<Rightarrow> int \<Rightarrow> (pyval \<rightharpoonup> int) \<Rightarrow> conn \<Rightarrow> (exc + (pyval \<rightharpoonup> int)) \<times> conn" where
  "insert_subgenes_loop [] herv_chain_id subgene_index_to_id c = (Inr subgene_index_to_id, c)"
| "insert_subgenes_loop (subgene # rest) herv_chain_id subgene_index_to_id c =
     (case dict_pop (dict_set subgene ''herv_chain_id'' (PInt herv_chain_id)) ''subgene_index'' of
        Inl e \<Rightarrow> (Inl e, c)
      | Inr (subgene_index, subgene_data) \<Rightarrow>
          (case execute T_subgenes (dict_del ''chain_index'' subgene_data) c of
             (Inl e, c') \<Rightarrow> (Inl e, c')
           | (Inr subgene_db_id, c') \<Rightarrow>
               (case py_key subgene_index of
                  Inl e \<Rightarrow> (Inl e, c')
                | Inr k \<Rightarrow>
                    insert_subgenes_loop rest herv_chain_id
                      (subgene_index_to_id(k \<mapsto> subgene_db_id)) c')))"

text \<open>The second loop: each domain is linked through the dictionary.\<close>

fun insert_domains_loop ::
  "row list \<Rightarrow> (pyval \<rightharpoonup> int) \<Rightarrow> conn \<Rightarrow> (exc + unit) \<times> conn" where
  "insert_domains_loop [] subgene_index_to_id c = (Inr (), c)"
| "insert_domains_loop (domain # rest) subgene_index_to_id c =
     (case dict_pop domain ''subgene_index'' of
        Inl e \<Rightarrow> (Inl e, c)
      | Inr (subgene_index, domain_data) \<Rightarrow>
          (case py_key subgene_index of
             Inl e \<Rightarrow> (Inl e, c)
           | Inr k \<Rightarrow>
               (case subgene_index_to_id k of
                  None \<Rightarrow> (Inl (KeyError subgene_index), c)
                | Some subgene_id \<Rightarrow>
                    (case execute T_domains (dict_set domain_data ''subgene_id'' (PInt subgene_id)) c of
                       (Inl e, c') \<Rightarrow> (Inl e, c')
                     | (Inr i, c') \<Rightarrow> insert_domains_loop rest subgene_index_to_id c'))))"

definition insert_subgenes_domains ::
  "row list \<Rightarrow> row list \<Rightarrow> int \<Rightarrow> conn \<Rightarrow> (exc + unit) \<times> conn" where
  "insert_subgenes_domains subgenes domains herv_chain_id =
     bindS (insert_subgenes_loop subgenes herv_chain_id Map.empty) (\<lambda>subgene_index_to_id.
     bindS (insert_domains_loop domains subgene_index_to_id) (\<lambda>u. commit))"

fun insert_motifs_loop :: "row list \<Rightarrow> int \<Rightarrow> conn \<Rightarrow> (exc + unit) \<times> conn" where
  "insert_motifs_loop [] herv_chain_id c = (Inr (), c)"
| "insert_motifs_loop (motif # rest) herv_chain_id c =
     (case execute T_motifs (dict_set motif ''herv_chain_id'' (PInt herv_chain_id)) c of
        (Inl e, c') \<Rightarrow> (Inl e, c')
      | (Inr i, c') \<Rightarrow> insert_motifs_loop rest herv_chain_id c')"

definition insert_motifs :: "row list \<Rightarrow> int \<Rightarrow> conn \<Rightarrow> (exc + unit) \<times> conn" where
  "insert_motifs motifs herv_chain_id =
     bindS (insert_motifs_loop motifs herv_chain_id) (\<lambda>u. commit)"

section \<open>The load\<close>

text \<open>One iteration of the loop of \<^verbatim>\<open>parse_and_load_retroctector\<close>.\<close>

definition load_chain_block :: "pylib \<Rightarrow> pyval \<Rightarrow> int \<Rightarrow> pyval \<Rightarrow> conn \<Rightarrow> (exc + unit) \<times> conn" where
  "load_chain_block lib data run_metadata_pk_id chain_block =
     bindS (liftE (extract_herv_chain_metadata lib chain_block)) (\<lambda>chain_metadata.
     bindS (insert_herv_chain chain_metadata run_metadata_pk_id) (\<lambda>herv_chain_id.
     bindS (liftE (parse_subgenes_and_domains chain_block)) (\<lambda>(subgenes, domains).
     bindS (insert_subgenes_domains subgenes domains herv_chain_id) (\<lambda>u.
     bindS (liftE (parse_motifs chain_block)) (\<lambda>motifs.
     bindS (insert_motifs motifs herv_chain_id) (\<lambda>u.
     bindS (liftE (parse_ltrs data)) (\<lambda>ltr.
     insert_ltrs ltr herv_chain_id)))))))"

fun load_chain_blocks :: "pylib \<Rightarrow> pyval \<Rightarrow> int \<Rightarrow> pyval list \<Rightarrow> conn \<Rightarrow> (exc + unit) \<times> conn" where
  "load_chain_blocks lib data run_metadata_pk_id [] c = (Inr (), c)"
| "load_chain_blocks lib data run_metadata_pk_id (chain_block # rest) c =
     (case load_chain_block lib data run_metadata_pk_id chain_block c of
        (Inl e, c') \<Rightarrow> (Inl e, c')
      | (Inr u, c') \<Rightarrow> load_chain_blocks lib data run_metadata_pk_id rest c')"

definition parse_and_load_retroctector :: "pylib \<Rightarrow> pyval \<Rightarrow> conn \<Rightarrow> (exc + unit) \<times> conn" where
  "parse_and_load_retroctector lib data =
     bindS (liftE (parse_run_metadata lib data)) (\<lambda>run_metadata.
     bindS (insert_run_metadata run_metadata) (\<lambda>run_metadata_pk_id.
     bindS (liftE (get_herv_chain_blocks data)) (\<lambda>chain_blocks.
     bindS (liftE (py_iter chain_blocks)) (\<lambda>blocks.
     load_chain_blocks lib data run_metadata_pk_id blocks))))"

section \<open>The command\<close>

text \<open>
  What \<^verbatim>\<open>main\<close> meets outside the loader: the outcome of \<^verbatim>\<open>parse_args\<close>
  (the input path, or \<^verbatim>\<open>SystemExit\<close>), of \<^verbatim>\<open>psycopg2.connect\<close> and of
  \<^verbatim>\<open>load_retrotector_json\<close> on a path. The connection parameters are blank in
  the source and play no part here.
\<close>

record env =
  parse_args :: "exc + string"
  connect :: "exc + conn"
  load_retrotector_json :: "string \<Rightarrow> exc + pyval"

datatype msg = Loading string | Connected | Error exc | Closed

text \<open>
  The body of the \<^verbatim>\<open>try\<close>: the lines printed, the local variable
  \<^verbatim>\<open>conn\<close> (\<open>None\<close> while it is unbound) and the exception in flight.
\<close>

definition main_try :: "pylib \<Rightarrow> env \<Rightarrow> msg list \<times> conn option \<times> exc option" where
  "main_try lib env =
     (case parse_args env of
        Inl e \<Rightarrow> ([], None, Some e)
      | Inr input \<Rightarrow>
          (case connect env of
             Inl e \<Rightarrow> ([Loading input], None, Some e)
           | Inr conn \<Rightarrow>
               (case load_retrotector_json env input of
                  Inl e \<Rightarrow> ([Loading input, Connected], Some conn, Some e)
                | Inr data \<Rightarrow>
                    (case parse_and_load_retroctector lib data conn of
                       (Inl e, conn') \<Rightarrow> ([Loading input, Connected], Some conn', Some e)
                     | (Inr u, conn') \<Rightarrow> ([Loading input, Connected], Some conn', None)))))"

text \<open>
  \<^verbatim>\<open>except Exception as e: print(...)\<close> ends an exception of that class.
\<close>

definition main_except :: "msg list \<times> conn option \<times> exc option \<Rightarrow> msg list \<times> conn option \<times> exc option" where
  "main_except st =
     (case st of
        (out, conn, Some e) \<Rightarrow> if is_Exception e then (out @ [Error e], conn, None) else st
      | (out, conn, None) \<Rightarrow> st)"

text \<open>
  The result of a run: the lines printed, the exception that leaves \<^verbatim>\<open>main\<close>
  and the connection, if one was opened, as the run leaves it.
\<close>

record outcome =
  printed :: "msg list"
  escaped :: "exc option"
  connection :: "conn option"

text \<open>
  \<^verbatim>\<open>finally: if conn: conn.close(); print(...)\<close>. Reading \<^verbatim>\<open>conn\<close> while
  it is unbound raises \<^verbatim>\<open>UnboundLocalError\<close>, which replaces the exception in
  flight; a connection object is truthy.
\<close>

definition main_finally :: "msg list \<times> conn option \<times> exc option \<Rightarrow> outcome" where
  "main_finally st =
     (case st of
        (out, None, raised) \<Rightarrow>
          \<lparr>printed = out, escaped = Some UnboundLocalError, connection = None\<rparr>
      | (out, Some conn, raised) \<Rightarrow>
          \<lparr>printed = out @ [Closed], escaped = raised, connection = Some (close conn)\<rparr>)"

definition main :: "pylib \<Rightarrow> env \<Rightarrow> outcome" where
  "main lib env = main_finally (main_except (main_try lib env))"

section \<open>The source document, as the claims read it\<close>

text \<open>
  The value a dictionary of the document holds under a key (\<^verbatim>\<open>None\<close> when the
  key is absent), and the list it holds under a key (empty when the key is absent).
\<close>

definition src_field :: "pyval \<Rightarrow> string \<Rightarrow> pyval" where
  "src_field d k =
     (case d of
        PDict kvs \<Rightarrow> (case map_of kvs k of Some v \<Rightarrow> v | None \<Rightarrow> PNone)
      | _ \<Rightarrow> PNone)"

definition src_list :: "pyval \<Rightarrow> string \<Rightarrow> pyval list" where
  "src_list d k =
     (case d of
        PDict kvs \<Rightarrow> (case map_of kvs k of Some (PList xs) \<Rightarrow> xs | _ \<Rightarrow> [])
      | _ \<Rightarrow> [])"

definition is_dict :: "pyval \<Rightarrow> bool" where
  "is_dict v = (case v of PDict kvs \<Rightarrow> True | _ \<Rightarrow> False)"

text \<open>A key that is absent or holds a list of dictionaries.\<close>

definition dicts_under :: "pyval \<Rightarrow> string \<Rightarrow> bool" where
  "dicts_under d k =
     (case d of
        PDict kvs \<Rightarrow>
          (case map_of kvs k of
             None \<Rightarrow> True
           | Some v \<Rightarrow> (case v of PList xs \<Rightarrow> list_all is_dict xs | _ \<Rightarrow> False))
      | _ \<Rightarrow> False)"

text \<open>The row of one motif of a category.\<close>

definition motif_row :: "string \<Rightarrow> pyval \<Rightarrow> row" where
  "motif_row motif_type motif =
     [(''type'', PStr motif_type),
      (''pos_init'', src_field motif ''pos_init''),
      (''pos_end'', src_field motif ''pos_end''),
      (''score'', src_field motif ''score'')]"

text \<open>
  The rows \<^verbatim>\<open>parse_subgenes_and_domains\<close> produces for the subgene at position
  \<open>k\<close> and for a domain nested under it.
\<close>

definition subgene_row :: "nat \<Rightarrow> pyval \<Rightarrow> row" where
  "subgene_row k subgene =
     [(''subgene_index'', PInt (int k)),
      (''name'', src_field subgene ''name''),
      (''type'', src_field subgene ''type''),
      (''score'', src_field subgene ''score''),
      (''hotspot'', src_field subgene ''hotspot'')]"

definition domain_row :: "nat \<Rightarrow> pyval \<Rightarrow> row" where
  "domain_row k domain =
     [(''subgene_index'', PInt (int k)),
      (''idx'', src_field domain ''idx''),
      (''type'', src_field domain ''type''),
      (''origin'', src_field domain ''origin''),
      (''score'', src_field domain ''score''),
      (''hotspot'', src_field domain ''hotspot''),
      (''frame'', src_field domain ''frame''),
      (''pos_init'', src_field domain ''pos_init''),
      (''pos_fin'', src_field domain ''pos_fin''),
      (''match_input'', src_field domain ''match_input''),
      (''reference_match'', src_field domain ''reference_match''),
      (''n_bases'', src_field domain ''n_bases'')]"

text \<open>
  The domains of a chain block in source order, each with the position of the subgene
  it is nested under.
\<close>

definition nested_domains :: "nat \<Rightarrow> pyval list \<Rightarrow> (nat \<times> pyval) list" where
  "nested_domains k subgenes =
     concat (map (\<lambda>(i, subgene). map (Pair i) (src_list subgene ''domains'')) (enumerate k subgenes))"

text \<open>
  The columns stored for a subgene of the chain \<open>herv_chain_id\<close>, and for a domain
  whose parent reference is \<open>subgene_id\<close>.
\<close>

definition subgene_cols :: "int \<Rightarrow> pyval \<Rightarrow> row" where
  "subgene_cols herv_chain_id subgene =
     [(''name'', src_field subgene ''name''),
      (''type'', src_field subgene ''type''),
      (''score'', src_field subgene ''score''),
      (''hotspot'', src_field subgene ''hotspot''),
      (''herv_chain_id'', PInt herv_chain_id)]"

definition domain_cols :: "int \<Rightarrow> pyval \<Rightarrow> row" where
  "domain_cols subgene_id domain =
     [(''idx'', src_field domain ''idx''),
      (''type'', src_field domain ''type''),
      (''origin'', src_field domain ''origin''),
      (''score'', src_field domain ''score''),
      (''hotspot'', src_field domain ''hotspot''),
      (''frame'', src_field domain ''frame''),
      (''pos_init'', src_field domain ''pos_init''),
      (''pos_fin'', src_field domain ''pos_fin''),
      (''match_input'', src_field domain ''match_input''),
      (''reference_match'', src_field domain ''reference_match''),
      (''n_bases'', src_field domain ''n_bases''),
      (''subgene_id'', PInt subgene_id)]"

text \<open>
  The stored row of a subgene (the identifier the store gave it, and the subgene of
  the source), and of a domain (its own identifier, the position of its parent and
  the domain of the source), given the identifier of the subgene at each position.
\<close>

definition subgene_stored :: "int \<Rightarrow> int \<times> pyval \<Rightarrow> stored" where
  "subgene_stored hid = (\<lambda>(i, sg). \<lparr>tbl = T_subgenes, rid = i, cols = subgene_cols hid sg\<rparr>)"

definition domain_stored :: "(nat \<Rightarrow> int) \<Rightarrow> int \<times> nat \<times> pyval \<Rightarrow> stored" where
  "domain_stored sid = (\<lambda>(i, k, d). \<lparr>tbl = T_domains, rid = i, cols = domain_cols (sid k) d\<rparr>)"

section \<open>Examples\<close>

text \<open>
  A store that refuses nothing and numbers its rows 1, 2, 3, ... in the order of
  their insertion, on a fresh connection.
\<close>

definition serial_conn :: conn where
  "serial_conn =
     \<lparr>respond = (\<lambda>rows t r. Some (int (length rows) + 1)),
      accept_commit = (\<lambda>done new. True),
      committed = [], pending = [], closed = False\<rparr>"

text \<open>A chain block with two subgenes: the first has one domain, the second two.\<close>

definition example_gag :: pyval where
  "example_gag = PDict [(''name'', PStr ''gag''), (''domains'', PList [PDict [(''idx'', PInt 10)]])]"

definition example_pol :: pyval where
  "example_pol = PDict [(''name'', PStr ''pol''),
     (''domains'', PList [PDict [(''idx'', PInt 20)], PDict [(''idx'', PInt 30)]])]"

definition example_chain_block :: pyval where
  "example_chain_block = PDict [(''subgenes'', PList [example_gag, example_pol])]"

section \<open>What a load leaves in the store\<close>

text \<open>The columns stored for a parsed LTR entry linked to a chain.\<close>

definition ltr_cols :: "int \<Rightarrow> row \<Rightarrow> row" where
  "ltr_cols herv_chain_id ltr_entry =
     dict_set (dict_del ''herv_chain_index'' ltr_entry) ''herv_chain_id'' (PInt herv_chain_id)"

text \<open>The rows of one table among stored rows.\<close>

definition of_table :: "table \<Rightarrow> stored list \<Rightarrow> stored list" where
  "of_table t rows = filter (\<lambda>r. tbl r = t) rows"

text \<open>
  A step that ends with a commit: what was pending and the rows \<open>new\<close> are now
  committed, nothing is pending.
\<close>

definition grows :: "conn \<Rightarrow> conn \<Rightarrow> stored list \<Rightarrow> bool" where
  "grows c c' new \<longleftrightarrow> committed c' = committed c @ pending c @ new \<and> pending c' = []"

text \<open>A step that, however it ends, only adds to the committed rows.\<close>

definition keeps_committed :: "(conn \<Rightarrow> (exc + 'a) \<times> conn) \<Rightarrow> bool" where
  "keeps_committed m \<longleftrightarrow> (\<forall>c x c'. m c = (x, c') \<longrightarrow> (\<exists>more. committed c' = committed c @ more))"

section \<open>More examples\<close>

text \<open>A store that refuses every domain row and numbers the other rows serially.\<close>

definition picky_conn :: conn where
  "picky_conn =
     \<lparr>respond = (\<lambda>rows t r. if t = T_domains then None else Some (int (length rows) + 1)),
      accept_commit = (\<lambda>done new. True),
      committed = [], pending = [], closed = False\<rparr>"

text \<open>An interpreter that reads no number from any string.\<close>

definition plain_lib :: pylib where
  "plain_lib = \<lparr>int_of_str = (\<lambda>s. None), float_of_str = (\<lambda>s. None)\<rparr>"

text \<open>A chain block with its required fields and given subgenes, and a document of two chains.\<close>

definition example_chain :: "pyval list \<Rightarrow> pyval" where
  "example_chain subgenes = PDict [
     (''chain_level'', PInt 1), (''chain_start_idx'', PInt 100), (''chain_end_idx'', PInt 900),
     (''retrovirus_type'', PStr ''K''), (''score'', PInt 5), (''type_of_chain'', PStr ''P''),
     (''subgenes'', PList subgenes)]"

definition example_document :: pyval where
  "example_document = PDict [(''pseuGID'', PList [example_chain [], example_chain [example_gag]])]"

text \<open>
  A document with one solo LTR and two chains, the first with one LTR of its own and
  the second with none.
\<close>

definition example_ltr_chain :: pyval where
  "example_ltr_chain = PDict [
     (''chain_level'', PInt 1), (''chain_start_idx'', PInt 100), (''chain_end_idx'', PInt 900),
     (''retrovirus_type'', PStr ''K''), (''score'', PInt 5), (''type_of_chain'', PStr ''P''),
     (''LTRs'', PList [PDict [(''init_idx'', PInt 100), (''fin_idx'', PInt 200)]])]"

definition ltr_document :: pyval where
  "ltr_document = PDict [
     (''soloLTRs'', PList [PDict [(''init_idx'', PInt 1), (''fin_idx'', PInt 50)]]),
     (''pseuGID'', PList [example_ltr_chain, example_chain []])]"

section \<open>Dictionary displays\<close>

lemma dict_display_map_of:
  "dict_display es = Inr r \<Longrightarrow>
   map_of r k = Option.bind (map_of es k) (\<lambda>e. case e of Inl x \<Rightarrow> None | Inr v \<Rightarrow> Some v)"
  by (induction es arbitrary: r) (auto split: sum.splits)

section \<open>Boolean normalization\<close>

lemma sdfactor_absent:
  assumes "parse_run_metadata lib (PDict doc) = Inr r"
    and "map_of doc ''footer'' = Some (PDict footer)"
    and "map_of footer ''SDFactor'' = None"
  shows "map_of r ''sdfactor'' = Some (PBool False)"
proof -
  obtain header where d: "dict_display (run_metadata_fields lib header (PDict footer)) = Inr r"
    using assms(1,2) by (simp add: parse_run_metadata_def bindE_def py_get_def)
  show ?thesis
    using dict_display_map_of[OF d, of "''sdfactor''"] assms(3)
    by (simp add: run_metadata_fields_def bindE_def py_get_def)
qed

text \<open>
  C6. \<^verbatim>\<open>to_bool\<close> returns a native boolean unchanged; a string is true exactly when
  its lower-case form is \<^verbatim>\<open>yes\<close>, \<^verbatim>\<open>true\<close> or \<^verbatim>\<open>1\<close>, so that
  \<^verbatim>\<open>Yes\<close>, \<^verbatim>\<open>yes\<close>, \<^verbatim>\<open>TRUE\<close> and \<^verbatim>\<open>1\<close> are true and \<^verbatim>\<open>no\<close> and
  the empty string are false; \<^verbatim>\<open>None\<close> and the number 0 are false; a footer without
  \<^verbatim>\<open>SDFactor\<close> yields the column value false; every value that is neither a
  boolean nor a string is taken by its truthiness.
\<close>

theorem to_bool_normalization:
  "to_bool (PBool b) = b \<and>
   (to_bool (PStr s) \<longleftrightarrow> lower s = ''yes'' \<or> lower s = ''true'' \<or> lower s = ''1'') \<and>
   to_bool (PStr ''Yes'') \<and> to_bool (PStr ''yes'') \<and> to_bool (PStr ''TRUE'') \<and> to_bool (PStr ''1'') \<and>
   \<not> to_bool (PStr ''no'') \<and> \<not> to_bool (PStr '''') \<and>
   \<not> to_bool PNone \<and> \<not> to_bool (PInt 0) \<and>
   (\<forall>lib doc footer r.
      parse_run_metadata lib (PDict doc) = Inr r \<and> map_of doc ''footer'' = Some (PDict footer) \<and>
      map_of footer ''SDFactor'' = None \<longrightarrow> map_of r ''sdfactor'' = Some (PBool False)) \<and>
   ((\<forall>b. v \<noteq> PBool b) \<and> (\<forall>s. v \<noteq> PStr s) \<longrightarrow> to_bool v = truthy v)"
proof -
  have ex: "to_bool (PStr ''Yes'')" "to_bool (PStr ''yes'')" "to_bool (PStr ''TRUE'')"
    "to_bool (PStr ''1'')" "\<not> to_bool (PStr ''no'')" "\<not> to_bool (PStr '''')"
    by (simp_all add: lower_def lower_char_def)
  have other: "(\<forall>b. v \<noteq> PBool b) \<and> (\<forall>s. v \<noteq> PStr s) \<longrightarrow> to_bool v = truthy v"
    by (cases v) simp_all
  show ?thesis
    using ex other sdfactor_absent by auto
qed

theorem to_bool_normalization_witness:
  "\<exists>r. parse_run_metadata \<lparr>int_of_str = (\<lambda>s. None), float_of_str = (\<lambda>s. None)\<rparr>
          (PDict [(''footer'', PDict [(''Strand'', PStr ''+'')])]) = Inr r \<and>
       map_of r ''sdfactor'' = Some (PBool False) \<and> to_bool (PInt 7) = truthy (PInt 7)"
proof -
  obtain r where r: "parse_run_metadata \<lparr>int_of_str = (\<lambda>s. None), float_of_str = (\<lambda>s. None)\<rparr>
          (PDict [(''footer'', PDict [(''Strand'', PStr ''+'')])]) = Inr r"
    by (simp add: parse_run_metadata_def run_metadata_fields_def bindE_def py_get_def py_or_def
        parse_datetime_def)
  have h: "\<And>lib doc footer r.
      parse_run_metadata lib (PDict doc) = Inr r \<Longrightarrow> map_of doc ''footer'' = Some (PDict footer) \<Longrightarrow>
      map_of footer ''SDFactor'' = None \<Longrightarrow> map_of r ''sdfactor'' = Some (PBool False)"
    and t: "(\<forall>b. PInt 7 \<noteq> PBool b) \<and> (\<forall>s. PInt 7 \<noteq> PStr s) \<longrightarrow> to_bool (PInt 7) = truthy (PInt 7)"
    using to_bool_normalization[of True "''yes''" "PInt 7"] by blast+
  have "map_of r ''sdfactor'' = Some (PBool False)"
    using h[OF r, of "[(''Strand'', PStr ''+'')]"] by simp
  then show ?thesis
    using r t by blast
qed

section \<open>Loops that collect rows\<close>

lemma mapE_Inr_map:
  "mapE f xs = Inr rs \<Longrightarrow> (\<And>x r. x \<in> set xs \<Longrightarrow> f x = Inr r \<Longrightarrow> r = g x) \<Longrightarrow> rs = map g xs"
  by (induction xs arbitrary: rs) (auto split: sum.splits)

lemma mapE_Inr_all2:
  "mapE f xs = Inr rs \<longleftrightarrow> list_all2 (\<lambda>x r. f x = Inr r) xs rs"
proof (induction xs arbitrary: rs)
  case Nil
  then show ?case by auto
next
  case (Cons x xs)
  show ?case
    by (cases rs) (auto split: sum.splits simp: Cons.IH[symmetric])
qed

lemma mapE_total:
  "(\<And>x. x \<in> set xs \<Longrightarrow> f x = Inr (g x)) \<Longrightarrow> mapE f xs = Inr (map g xs)"
  by (induction xs) auto

lemma iter_src_list:
  assumes "py_get d k (PList []) = Inr v" and "py_iter v = Inr xs" and "mapE f xs = Inr rs"
    and "\<And>s. f (PStr s) = Inl AttributeError"
  shows "xs = src_list d k"
proof -
  have nostr: "ys = []" if "mapE f (map (\<lambda>y. PStr (h y)) ys) = Inr rs" for ys :: "'c list" and h rs
    using that assms(4) by (cases ys) auto
  obtain kvs where d: "d = PDict kvs"
    using assms(1) by (cases d) (simp_all add: py_get_def)
  show ?thesis
  proof (cases v)
    case (PList ys)
    then show ?thesis using assms(1,2) d
      by (auto simp: py_get_def src_list_def split: option.splits)
  next
    case (PDict kvs')
    with assms(2,3) have "xs = []" using nostr[of "fst" kvs'] by auto
    then show ?thesis using assms(1) d PDict
      by (auto simp: py_get_def src_list_def split: option.splits)
  next
    case (PStr s)
    with assms(2,3) have "xs = []" using nostr[of "\<lambda>c. [c]" s] by auto
    then show ?thesis using assms(1) d PStr
      by (auto simp: py_get_def src_list_def split: option.splits)
  qed (use assms(2) in simp_all)
qed

lemma motif_entry_row: "motif_entry t m = Inr r \<Longrightarrow> r = motif_row t m"
  by (cases m) (auto simp: motif_entry_def motif_fields_def motif_row_def py_get_def src_field_def
      split: option.splits)

lemma motif_entry_str: "motif_entry t (PStr s) = Inl AttributeError"
  by (simp add: motif_entry_def motif_fields_def py_get_def)

lemma motif_entry_dict: "is_dict m \<Longrightarrow> motif_entry t m = Inr (motif_row t m)"
  by (cases m) (auto simp: is_dict_def motif_entry_def motif_fields_def motif_row_def py_get_def src_field_def
      split: option.splits)

lemma motifs_of_type_rows:
  assumes "motifs_of_type cb t = Inr ms"
  shows "ms = map (motif_row t) (src_list cb (t @ ''_motifs''))"
proof -
  from assms obtain v xs where v: "py_get cb (t @ ''_motifs'') (PList []) = Inr v"
    and xs: "py_iter v = Inr xs" and m: "mapE (motif_entry t) xs = Inr ms"
    by (auto simp: motifs_of_type_def bindE_def split: sum.splits)
  have "xs = src_list cb (t @ ''_motifs'')"
    using iter_src_list[OF v xs m] motif_entry_str by simp
  then show ?thesis
    using mapE_Inr_map[OF m, of "motif_row t"] motif_entry_row by blast
qed

lemma motifs_loop_rows:
  "motifs_loop cb ts = Inr ms \<Longrightarrow>
   ms = concat (map (\<lambda>t. map (motif_row t) (src_list cb (t @ ''_motifs''))) ts)"
  by (induction ts arbitrary: ms) (auto split: sum.splits dest: motifs_of_type_rows)

lemma motifs_of_type_total:
  assumes "dicts_under cb (t @ ''_motifs'')"
  shows "motifs_of_type cb t = Inr (map (motif_row t) (src_list cb (t @ ''_motifs'')))"
proof -
  obtain kvs where d: "cb = PDict kvs"
    using assms by (cases cb) (simp_all add: dicts_under_def)
  show ?thesis
  proof (cases "map_of kvs (t @ ''_motifs'')")
    case None
    then show ?thesis by (simp add: d motifs_of_type_def bindE_def py_get_def src_list_def)
  next
    case (Some v)
    with assms d obtain xs where v: "v = PList xs" and a: "list_all is_dict xs"
      by (cases v) (simp_all add: dicts_under_def)
    have "mapE (motif_entry t) xs = Inr (map (motif_row t) xs)"
      using a by (intro mapE_total motif_entry_dict) (simp add: list_all_iff)
    then show ?thesis
      using Some v by (simp add: d motifs_of_type_def bindE_def py_get_def src_list_def)
  qed
qed

lemma motifs_loop_total:
  "list_all (\<lambda>t. dicts_under cb (t @ ''_motifs'')) ts \<Longrightarrow>
   motifs_loop cb ts = Inr (concat (map (\<lambda>t. map (motif_row t) (src_list cb (t @ ''_motifs''))) ts))"
  by (induction ts) (auto simp: motifs_of_type_total)

section \<open>Motif extraction\<close>

text \<open>
  C8. \<^verbatim>\<open>parse_motifs\<close> goes through the categories in the fixed order Slippery,
  PseudoKnot, SpliceAcceptor, SpliceDonor. Whenever it returns, its result is one flat
  list: the rows of the Slippery motifs in their source order, then those of the
  PseudoKnot motifs, and so on, each row tagged with its category under \<^verbatim>\<open>type\<close>.
  It does return for a chain block in which each of the four keys is absent or holds
  a list of dictionaries.
\<close>

theorem parse_motifs_order:
  "motif_types = [''Slippery'', ''PseudoKnot'', ''SpliceAcceptor'', ''SpliceDonor''] \<and>
   (parse_motifs chain_block = Inr ms \<longrightarrow>
      ms = map (motif_row ''Slippery'') (src_list chain_block ''Slippery_motifs'') @
           map (motif_row ''PseudoKnot'') (src_list chain_block ''PseudoKnot_motifs'') @
           map (motif_row ''SpliceAcceptor'') (src_list chain_block ''SpliceAcceptor_motifs'') @
           map (motif_row ''SpliceDonor'') (src_list chain_block ''SpliceDonor_motifs'')) \<and>
   (dicts_under chain_block ''Slippery_motifs'' \<and> dicts_under chain_block ''PseudoKnot_motifs'' \<and>
    dicts_under chain_block ''SpliceAcceptor_motifs'' \<and> dicts_under chain_block ''SpliceDonor_motifs'' \<longrightarrow>
      (\<exists>ms. parse_motifs chain_block = Inr ms)) \<and>
   (\<forall>t m. map_of (motif_row t m) ''type'' = Some (PStr t))"
proof -
  have a: "parse_motifs chain_block = Inr ms \<longrightarrow>
      ms = map (motif_row ''Slippery'') (src_list chain_block ''Slippery_motifs'') @
           map (motif_row ''PseudoKnot'') (src_list chain_block ''PseudoKnot_motifs'') @
           map (motif_row ''SpliceAcceptor'') (src_list chain_block ''SpliceAcceptor_motifs'') @
           map (motif_row ''SpliceDonor'') (src_list chain_block ''SpliceDonor_motifs'')"
    using motifs_loop_rows[of chain_block motif_types ms]
    by (simp add: parse_motifs_def motif_types_def)
  have b: "dicts_under chain_block ''Slippery_motifs'' \<and> dicts_under chain_block ''PseudoKnot_motifs'' \<and>
    dicts_under chain_block ''SpliceAcceptor_motifs'' \<and> dicts_under chain_block ''SpliceDonor_motifs'' \<longrightarrow>
      (\<exists>ms. parse_motifs chain_block = Inr ms)"
    using motifs_loop_total[of chain_block motif_types]
    by (simp add: parse_motifs_def motif_types_def)
  have c: "\<forall>t m. map_of (motif_row t m) ''type'' = Some (PStr t)"
    by (simp add: motif_row_def)
  show ?thesis using a b c by (simp add: motif_types_def)
qed

theorem parse_motifs_order_witness:
  "parse_motifs (PDict [
      (''SpliceDonor_motifs'', PList [PDict [(''pos_init'', PInt 9), (''score'', PInt 3)]]),
      (''Slippery_motifs'', PList [PDict [(''pos_init'', PInt 1)], PDict [(''pos_end'', PInt 2)]])]) =
   Inr [[(''type'', PStr ''Slippery''), (''pos_init'', PInt 1), (''pos_end'', PNone), (''score'', PNone)],
        [(''type'', PStr ''Slippery''), (''pos_init'', PNone), (''pos_end'', PInt 2), (''score'', PNone)],
        [(''type'', PStr ''SpliceDonor''), (''pos_init'', PInt 9), (''pos_end'', PNone), (''score'', PInt 3)]]"
proof -
  let ?cb = "PDict [
      (''SpliceDonor_motifs'', PList [PDict [(''pos_init'', PInt 9), (''score'', PInt 3)]]),
      (''Slippery_motifs'', PList [PDict [(''pos_init'', PInt 1)], PDict [(''pos_end'', PInt 2)]])]"
  have wf: "dicts_under ?cb ''Slippery_motifs'' \<and> dicts_under ?cb ''PseudoKnot_motifs'' \<and>
    dicts_under ?cb ''SpliceAcceptor_motifs'' \<and> dicts_under ?cb ''SpliceDonor_motifs''"
    by (simp add: dicts_under_def is_dict_def)
  from parse_motifs_order[of ?cb] wf obtain ms where ms: "parse_motifs ?cb = Inr ms"
    by blast
  with parse_motifs_order[of ?cb ms] show ?thesis
    by (simp add: src_list_def motif_row_def src_field_def)
qed

section \<open>Subgenes and domains: what the parser returns\<close>

lemma py_get_dict_None: "py_get (PDict kvs) k PNone = Inr (src_field (PDict kvs) k)"
  by (simp add: py_get_def src_field_def)

lemma parsed_subgene_dict: "parsed_subgene k (PDict kvs) = Inr (subgene_row k (PDict kvs))"
  by (simp add: parsed_subgene_def subgene_fields_def subgene_row_def py_get_dict_None)

lemma parsed_subgene_row: "parsed_subgene k sg = Inr r \<Longrightarrow> r = subgene_row k sg"
  by (cases sg) (simp_all add: parsed_subgene_dict, simp_all add: parsed_subgene_def subgene_fields_def py_get_def)

lemma parsed_subgene_str: "parsed_subgene k (PStr s) = Inl AttributeError"
  by (simp add: parsed_subgene_def subgene_fields_def py_get_def)

lemma parsed_domain_dict: "parsed_domain k (PDict kvs) = Inr (domain_row k (PDict kvs))"
  by (simp add: parsed_domain_def domain_fields_def domain_row_def py_get_dict_None)

lemma parsed_domain_row: "parsed_domain k d = Inr r \<Longrightarrow> r = domain_row k d"
  by (cases d) (simp_all add: parsed_domain_dict, simp_all add: parsed_domain_def domain_fields_def py_get_def)

lemma parsed_domain_str: "parsed_domain k (PStr s) = Inl AttributeError"
  by (simp add: parsed_domain_def domain_fields_def py_get_def)

lemma subgene_domains_rows:
  assumes "bindE (py_get sg ''domains'' (PList [])) (\<lambda>v. bindE (py_iter v) (mapE (parsed_domain k))) = Inr ds"
  shows "ds = map (domain_row k) (src_list sg ''domains'')"
proof -
  from assms obtain v xs where v: "py_get sg ''domains'' (PList []) = Inr v"
    and xs: "py_iter v = Inr xs" and m: "mapE (parsed_domain k) xs = Inr ds"
    by (auto simp: bindE_def split: sum.splits)
  have "xs = src_list sg ''domains''"
    using iter_src_list[OF v xs m] parsed_domain_str by simp
  then show ?thesis
    using mapE_Inr_map[OF m, of "domain_row k"] parsed_domain_row by blast
qed

lemma subgenes_loop_rows:
  "subgenes_loop k sgs = Inr (subs, doms) \<Longrightarrow>
   subs = map (\<lambda>(i, sg). subgene_row i sg) (enumerate k sgs) \<and>
   doms = map (\<lambda>(i, d). domain_row i d) (nested_domains k sgs)"
proof (induction sgs arbitrary: k subs doms)
  case Nil
  then show ?case by (simp add: nested_domains_def)
next
  case (Cons sg sgs)
  from Cons.prems obtain s ds ss dd where
    s: "parsed_subgene k sg = Inr s"
    and ds: "bindE (py_get sg ''domains'' (PList [])) (\<lambda>v. bindE (py_iter v) (mapE (parsed_domain k))) = Inr ds"
    and rest: "subgenes_loop (Suc k) sgs = Inr (ss, dd)"
    and eq: "subs = s # ss" "doms = ds @ dd"
    by (auto split: sum.splits)
  show ?case
    using Cons.IH[OF rest] parsed_subgene_row[OF s] subgene_domains_rows[OF ds] eq
    by (simp add: nested_domains_def comp_def)
qed

lemma subgenes_loop_str: "subgenes_loop k (PStr s # xs) = Inl AttributeError"
  by (simp add: parsed_subgene_str)

lemma iter_src_list_gen:
  assumes "py_get d k (PList []) = Inr v" and "py_iter v = Inr xs"
    and "\<And>s ys. xs \<noteq> PStr s # ys"
  shows "xs = src_list d k"
proof -
  have nostr: "ys = []" if "xs = map (\<lambda>y. PStr (h y)) ys" for ys :: "'c list" and h
    using that assms(3) by (cases ys) auto
  obtain kvs where d: "d = PDict kvs"
    using assms(1) by (cases d) (simp_all add: py_get_def)
  show ?thesis
  proof (cases v)
    case (PList ys)
    then show ?thesis using assms(1,2) d
      by (auto simp: py_get_def src_list_def split: option.splits)
  next
    case (PDict kvs')
    with assms(2) have "kvs' = []" using nostr[of "fst" kvs'] by auto
    then show ?thesis using assms(1,2) d PDict
      by (auto simp: py_get_def src_list_def split: option.splits)
  next
    case (PStr s)
    with assms(2) have "s = []" using nostr[of "\<lambda>c. [c]" s] by auto
    then show ?thesis using assms(1,2) d PStr
      by (auto simp: py_get_def src_list_def split: option.splits)
  qed (use assms(2) in simp_all)
qed

lemma parse_subgenes_and_domains_rows:
  assumes "parse_subgenes_and_domains cb = Inr (subs, doms)"
  shows "subs = map (\<lambda>(i, sg). subgene_row i sg) (enumerate 0 (src_list cb ''subgenes'')) \<and>
         doms = map (\<lambda>(i, d). domain_row i d) (nested_domains 0 (src_list cb ''subgenes''))"
proof -
  from assms obtain v xs where v: "py_get cb ''subgenes'' (PList []) = Inr v"
    and xs: "py_iter v = Inr xs" and l: "subgenes_loop 0 xs = Inr (subs, doms)"
    by (auto simp: parse_subgenes_and_domains_def bindE_def split: sum.splits)
  have "xs \<noteq> PStr s # ys" for s ys
    using l subgenes_loop_str by auto
  then have "xs = src_list cb ''subgenes''"
    by (rule iter_src_list_gen[OF v xs])
  then show ?thesis
    using subgenes_loop_rows[OF l] by simp
qed

section \<open>Subgenes and domains: what the insertion stores\<close>

lemma execute_cases:
  "execute t r c = (Inl StoreError, c) \<or>
   (\<exists>i. execute t r c = (Inr i, c\<lparr>pending := pending c @ [\<lparr>tbl = t, rid = i, cols = r\<rparr>]\<rparr>))"
  by (simp add: execute_def split: option.splits)

lemma commit_cases:
  "commit c = (Inl StoreError, c) \<or> commit c = (Inl StoreError, c\<lparr>pending := []\<rparr>) \<or>
   commit c = (Inr (), c\<lparr>committed := committed c @ pending c, pending := []\<rparr>)"
  by (simp add: commit_def)

lemma subgene_step:
  "insert_subgenes_loop (subgene_row k sg # rest) hid m c =
     (case execute T_subgenes (subgene_cols hid sg) c of
        (Inl e, c') \<Rightarrow> (Inl e, c')
      | (Inr i, c') \<Rightarrow> insert_subgenes_loop rest hid (m(PInt (int k) \<mapsto> i)) c')"
proof -
  have "dict_pop (dict_set (subgene_row k sg) ''herv_chain_id'' (PInt hid)) ''subgene_index'' =
        Inr (PInt (int k), subgene_cols hid sg)"
    by (simp add: subgene_row_def subgene_cols_def dict_pop_def dict_del_def)
  moreover have "dict_del ''chain_index'' (subgene_cols hid sg) = subgene_cols hid sg"
    by (simp add: subgene_cols_def dict_del_def)
  ultimately show ?thesis
    by (simp split: prod.splits sum.splits)
qed

lemma domain_step:
  "insert_domains_loop (domain_row k d # rest) m c =
     (case m (PInt (int k)) of
        None \<Rightarrow> (Inl (KeyError (PInt (int k))), c)
      | Some sid \<Rightarrow>
          (case execute T_domains (domain_cols sid d) c of
             (Inl e, c') \<Rightarrow> (Inl e, c')
           | (Inr i, c') \<Rightarrow> insert_domains_loop rest m c'))"
proof -
  have p: "dict_pop (domain_row k d) ''subgene_index'' =
        Inr (PInt (int k), butlast (domain_cols 0 d))"
    by (simp add: domain_row_def domain_cols_def dict_pop_def dict_del_def)
  have s: "dict_set (butlast (domain_cols 0 d)) ''subgene_id'' (PInt sid) = domain_cols sid d" for sid
    by (simp add: domain_cols_def)
  show ?thesis
    by (simp add: p s split: prod.splits sum.splits option.splits)
qed

lemma insert_subgenes_loop_ok:
  "insert_subgenes_loop (map (\<lambda>(i, sg). subgene_row i sg) (enumerate k sgs)) hid m c = (Inr m', c') \<Longrightarrow>
   \<exists>ids. length ids = length sgs \<and>
     c' = c\<lparr>pending := pending c @ map (subgene_stored hid) (zip ids sgs)\<rparr> \<and>
     (\<forall>j < length sgs. m' (PInt (int (k + j))) = Some (ids ! j)) \<and>
     (\<forall>key. (\<forall>j < length sgs. key \<noteq> PInt (int (k + j))) \<longrightarrow> m' key = m key)"
proof (induction sgs arbitrary: k m c)
  case Nil
  then show ?case by simp
next
  case (Cons sg sgs)
  let ?rest = "map (\<lambda>(i, sg). subgene_row i sg) (enumerate (Suc k) sgs)"
  from Cons.prems have st: "insert_subgenes_loop (subgene_row k sg # ?rest) hid m c = (Inr m', c')"
    by simp
  from execute_cases[of T_subgenes "subgene_cols hid sg" c] st obtain i where
    ex: "execute T_subgenes (subgene_cols hid sg) c =
           (Inr i, c\<lparr>pending := pending c @ [\<lparr>tbl = T_subgenes, rid = i, cols = subgene_cols hid sg\<rparr>]\<rparr>)"
    by (auto simp: subgene_step simp del: insert_subgenes_loop.simps)
  let ?c1 = "c\<lparr>pending := pending c @ [\<lparr>tbl = T_subgenes, rid = i, cols = subgene_cols hid sg\<rparr>]\<rparr>"
  from st ex have l: "insert_subgenes_loop ?rest hid (m(PInt (int k) \<mapsto> i)) ?c1 = (Inr m', c')"
    by (simp add: subgene_step del: insert_subgenes_loop.simps)
  from Cons.IH[OF l] obtain ids where ids: "length ids = length sgs"
    "c' = ?c1\<lparr>pending := pending ?c1 @ map (subgene_stored hid) (zip ids sgs)\<rparr>"
    "\<forall>j < length sgs. m' (PInt (int (Suc k + j))) = Some (ids ! j)"
    "\<forall>key. (\<forall>j < length sgs. key \<noteq> PInt (int (Suc k + j))) \<longrightarrow> m' key = (m(PInt (int k) \<mapsto> i)) key"
    by blast
  have keep: "m' (PInt (int k)) = Some i"
    using ids(4) by simp
  have a: "length (i # ids) = length (sg # sgs)"
    using ids(1) by simp
  have b: "c' = c\<lparr>pending := pending c @ map (subgene_stored hid) (zip (i # ids) (sg # sgs))\<rparr>"
    using ids(2) by (simp add: subgene_stored_def)
  have c: "\<forall>j < length (sg # sgs). m' (PInt (int (k + j))) = Some ((i # ids) ! j)"
  proof (intro allI impI)
    fix j assume "j < length (sg # sgs)"
    then show "m' (PInt (int (k + j))) = Some ((i # ids) ! j)"
      using keep ids(3) by (cases j) auto
  qed
  have d: "\<forall>key. (\<forall>j < length (sg # sgs). key \<noteq> PInt (int (k + j))) \<longrightarrow> m' key = m key"
  proof (intro allI impI)
    fix key assume h: "\<forall>j < length (sg # sgs). key \<noteq> PInt (int (k + j))"
    then have "key \<noteq> PInt (int k)" by force
    moreover have "\<forall>j < length sgs. key \<noteq> PInt (int (Suc k + j))"
      using h by force
    ultimately show "m' key = m key"
      using ids(4) by simp
  qed
  show ?case
    using a b c d by blast
qed

lemma nested_domains_bound:
  "(i, d) \<in> set (nested_domains k sgs) \<Longrightarrow> k \<le> i \<and> i < k + length sgs"
  by (auto simp: nested_domains_def in_set_enumerate_eq)

lemma insert_domains_loop_ok:
  "insert_domains_loop (map (\<lambda>(i, d). domain_row i d) ps) m c = (Inr u, c') \<Longrightarrow>
   (\<And>k d. (k, d) \<in> set ps \<Longrightarrow> m (PInt (int k)) = Some (sid k)) \<Longrightarrow>
   \<exists>ids. length ids = length ps \<and>
     c' = c\<lparr>pending := pending c @ map (domain_stored sid) (zip ids ps)\<rparr>"
proof (induction ps arbitrary: c)
  case Nil
  then show ?case by simp
next
  case (Cons p ps)
  obtain k d where p: "p = (k, d)" by (cases p)
  let ?rest = "map (\<lambda>(i, d). domain_row i d) ps"
  have mk: "m (PInt (int k)) = Some (sid k)"
    using Cons.prems(2)[of k d] p by simp
  from Cons.prems(1) p have st: "insert_domains_loop (domain_row k d # ?rest) m c = (Inr u, c')"
    by simp
  from execute_cases[of T_domains "domain_cols (sid k) d" c] st mk obtain i where
    ex: "execute T_domains (domain_cols (sid k) d) c =
           (Inr i, c\<lparr>pending := pending c @ [\<lparr>tbl = T_domains, rid = i, cols = domain_cols (sid k) d\<rparr>]\<rparr>)"
    by (auto simp: domain_step simp del: insert_domains_loop.simps)
  let ?c1 = "c\<lparr>pending := pending c @ [\<lparr>tbl = T_domains, rid = i, cols = domain_cols (sid k) d\<rparr>]\<rparr>"
  from st ex mk have l: "insert_domains_loop ?rest m ?c1 = (Inr u, c')"
    by (simp add: domain_step del: insert_domains_loop.simps)
  from Cons.IH[OF l] Cons.prems(2) obtain ids where ids: "length ids = length ps"
    "c' = ?c1\<lparr>pending := pending ?c1 @ map (domain_stored sid) (zip ids ps)\<rparr>"
    by auto
  have "length (i # ids) = length (p # ps)"
    using ids(1) by simp
  moreover have "c' = c\<lparr>pending := pending c @ map (domain_stored sid) (zip (i # ids) (p # ps))\<rparr>"
    using ids(2) p by (simp add: domain_stored_def)
  ultimately show ?case by blast
qed

lemma execute_frame:
  "execute t r c = (x, c') \<Longrightarrow> \<exists>new. c' = c\<lparr>pending := pending c @ new\<rparr>"
  using execute_cases[of t r c] by (auto intro: exI[of _ "[]"])

lemma extend_pending_twice:
  "c\<lparr>pending := pending c @ a\<rparr>\<lparr>pending := pending (c\<lparr>pending := pending c @ a\<rparr>) @ b\<rparr> =
   c\<lparr>pending := pending c @ (a @ b)\<rparr>"
  by simp

lemma insert_subgenes_loop_frame:
  "insert_subgenes_loop subs hid m c = (x, c') \<Longrightarrow> \<exists>new. c' = c\<lparr>pending := pending c @ new\<rparr>"
proof (induction subs arbitrary: m c)
  case Nil
  then show ?case by (auto intro: exI[of _ "[]"])
next
  case (Cons s subs)
  show ?case
  proof (cases "dict_pop (dict_set s ''herv_chain_id'' (PInt hid)) ''subgene_index''")
    case (Inl e)
    with Cons.prems show ?thesis by (auto intro: exI[of _ "[]"])
  next
    case (Inr p)
    obtain idx data where p: "p = (idx, data)" by (cases p)
    obtain y c1 where ex: "execute T_subgenes (dict_del ''chain_index'' data) c = (y, c1)"
      by (cases "execute T_subgenes (dict_del ''chain_index'' data) c")
    from execute_frame[OF ex] obtain a where a: "c1 = c\<lparr>pending := pending c @ a\<rparr>" by blast
    show ?thesis
    proof (cases y)
      case (Inl e)
      with Cons.prems Inr p ex a show ?thesis by auto
    next
      case (Inr i)
      note yi = this
      show ?thesis
      proof (cases "py_key idx")
        case (Inl e)
        with Cons.prems \<open>dict_pop _ _ = Inr p\<close> p ex yi a show ?thesis by auto
      next
        case (Inr k)
        with Cons.prems \<open>dict_pop _ _ = Inr p\<close> p ex yi
        have "insert_subgenes_loop subs hid (m(k \<mapsto> i)) c1 = (x, c')" by simp
        from Cons.IH[OF this] obtain b where "c' = c1\<lparr>pending := pending c1 @ b\<rparr>" by blast
        then have "c' = c\<lparr>pending := pending c @ (a @ b)\<rparr>"
          using a by simp
        then show ?thesis by blast
      qed
    qed
  qed
qed

lemma insert_domains_loop_frame:
  "insert_domains_loop ds m c = (x, c') \<Longrightarrow> \<exists>new. c' = c\<lparr>pending := pending c @ new\<rparr>"
proof (induction ds arbitrary: c)
  case Nil
  then show ?case by (auto intro: exI[of _ "[]"])
next
  case (Cons d ds)
  show ?case
  proof (cases "dict_pop d ''subgene_index''")
    case (Inl e)
    with Cons.prems show ?thesis by (auto intro: exI[of _ "[]"])
  next
    case (Inr p)
    note pp = this
    obtain idx data where p: "p = (idx, data)" by (cases p)
    show ?thesis
    proof (cases "py_key idx")
      case (Inl e)
      with Cons.prems pp p show ?thesis by (auto intro: exI[of _ "[]"])
    next
      case (Inr k)
      note kk = this
      show ?thesis
      proof (cases "m k")
        case None
        with Cons.prems pp p kk show ?thesis by (auto intro: exI[of _ "[]"])
      next
        case (Some sid)
        obtain y c1 where ex: "execute T_domains (dict_set data ''subgene_id'' (PInt sid)) c = (y, c1)"
          by (cases "execute T_domains (dict_set data ''subgene_id'' (PInt sid)) c")
        from execute_frame[OF ex] obtain a where a: "c1 = c\<lparr>pending := pending c @ a\<rparr>" by blast
        show ?thesis
        proof (cases y)
          case (Inl e)
          with Cons.prems pp p kk Some ex a show ?thesis by auto
        next
          case (Inr i)
          with Cons.prems pp p kk Some ex
          have "insert_domains_loop ds m c1 = (x, c')" by simp
          from Cons.IH[OF this] obtain b where "c' = c1\<lparr>pending := pending c1 @ b\<rparr>" by blast
          then have "c' = c\<lparr>pending := pending c @ (a @ b)\<rparr>"
            using a by simp
          then show ?thesis by blast
        qed
      qed
    qed
  qed
qed

lemma commit_committed:
  "commit c = (x, c') \<Longrightarrow>
   (x = Inr () \<and> c' = c\<lparr>committed := committed c @ pending c, pending := []\<rparr>) \<or>
   (x = Inl StoreError \<and> committed c' = committed c)"
  using commit_cases[of c] by auto

lemma insert_subgenes_domains_atomic:
  assumes "insert_subgenes_domains subs doms hid c = (x, c')"
  shows "(\<exists>new. x = Inr () \<and> committed c' = committed c @ pending c @ new \<and> pending c' = []) \<or>
         (\<exists>e. x = Inl e \<and> committed c' = committed c)"
proof -
  obtain y c1 where l1: "insert_subgenes_loop subs hid Map.empty c = (y, c1)"
    by (cases "insert_subgenes_loop subs hid Map.empty c")
  from insert_subgenes_loop_frame[OF l1] obtain a where a: "c1 = c\<lparr>pending := pending c @ a\<rparr>" by blast
  show ?thesis
  proof (cases y)
    case (Inl e)
    with assms l1 a show ?thesis by (auto simp: insert_subgenes_domains_def bindS_def)
  next
    case (Inr m)
    note ym = this
    obtain z c2 where l2: "insert_domains_loop doms m c1 = (z, c2)"
      by (cases "insert_domains_loop doms m c1")
    from insert_domains_loop_frame[OF l2] obtain b where b: "c2 = c1\<lparr>pending := pending c1 @ b\<rparr>" by blast
    show ?thesis
    proof (cases z)
      case (Inl e)
      with assms l1 ym l2 a b show ?thesis by (auto simp: insert_subgenes_domains_def bindS_def)
    next
      case (Inr u)
      with assms l1 ym l2 have "commit c2 = (x, c')"
        by (simp add: insert_subgenes_domains_def bindS_def)
      from commit_committed[OF this] show ?thesis
        using a b by auto
    qed
  qed
qed

lemma example_parse:
  "parse_subgenes_and_domains example_chain_block =
   Inr ([subgene_row 0 example_gag, subgene_row 1 example_pol],
        [domain_row 0 (PDict [(''idx'', PInt 10)]),
         domain_row 1 (PDict [(''idx'', PInt 20)]), domain_row 1 (PDict [(''idx'', PInt 30)])])"
  by (simp add: parse_subgenes_and_domains_def example_chain_block_def example_gag_def example_pol_def
      bindE_def py_get_def parsed_subgene_dict parsed_domain_dict)

lemma example_insert:
  "\<exists>c'. insert_subgenes_domains [subgene_row 0 example_gag, subgene_row 1 example_pol]
        [domain_row 0 (PDict [(''idx'', PInt 10)]),
         domain_row 1 (PDict [(''idx'', PInt 20)]), domain_row 1 (PDict [(''idx'', PInt 30)])]
        7 serial_conn = (Inr (), c')"
  by (simp add: insert_subgenes_domains_def bindS_def subgene_step domain_step execute_def commit_def
      serial_conn_def del: insert_subgenes_loop.simps(2) insert_domains_loop.simps(2))

lemma example_nested:
  "nested_domains 0 (src_list example_chain_block ''subgenes'') =
   [(0, PDict [(''idx'', PInt 10)]), (1, PDict [(''idx'', PInt 20)]), (1, PDict [(''idx'', PInt 30)])]"
  by (simp add: nested_domains_def src_list_def example_chain_block_def example_gag_def example_pol_def)

section \<open>Positional indices always resolve\<close>

lemma insert_subgenes_loop_err:
  "insert_subgenes_loop (map (\<lambda>(i, sg). subgene_row i sg) (enumerate k sgs)) hid m c = (Inl e, c') \<Longrightarrow>
   e = StoreError"
proof (induction sgs arbitrary: k m c)
  case Nil
  then show ?case by simp
next
  case (Cons sg sgs)
  let ?rest = "map (\<lambda>(i, sg). subgene_row i sg) (enumerate (Suc k) sgs)"
  from Cons.prems have st: "insert_subgenes_loop (subgene_row k sg # ?rest) hid m c = (Inl e, c')"
    by simp
  from execute_cases[of T_subgenes "subgene_cols hid sg" c] show ?case
  proof
    assume "execute T_subgenes (subgene_cols hid sg) c = (Inl StoreError, c)"
    with st show ?thesis
      by (simp add: subgene_step del: insert_subgenes_loop.simps)
  next
    assume "\<exists>i. execute T_subgenes (subgene_cols hid sg) c =
      (Inr i, c\<lparr>pending := pending c @ [\<lparr>tbl = T_subgenes, rid = i, cols = subgene_cols hid sg\<rparr>]\<rparr>)"
    then obtain i where "execute T_subgenes (subgene_cols hid sg) c =
      (Inr i, c\<lparr>pending := pending c @ [\<lparr>tbl = T_subgenes, rid = i, cols = subgene_cols hid sg\<rparr>]\<rparr>)"
      by blast
    with st Cons.IH show ?thesis
      by (simp add: subgene_step del: insert_subgenes_loop.simps)
  qed
qed

lemma insert_domains_loop_err:
  "insert_domains_loop (map (\<lambda>(i, d). domain_row i d) ps) m c = (Inl e, c') \<Longrightarrow>
   (\<And>k d. (k, d) \<in> set ps \<Longrightarrow> m (PInt (int k)) \<noteq> None) \<Longrightarrow> e = StoreError"
proof (induction ps arbitrary: c)
  case Nil
  then show ?case by simp
next
  case (Cons p ps)
  obtain k d where p: "p = (k, d)" by (cases p)
  let ?rest = "map (\<lambda>(i, d). domain_row i d) ps"
  obtain sid where mk: "m (PInt (int k)) = Some sid"
    using Cons.prems(2)[of k d] p by auto
  from Cons.prems(1) p have st: "insert_domains_loop (domain_row k d # ?rest) m c = (Inl e, c')"
    by simp
  from execute_cases[of T_domains "domain_cols sid d" c] show ?case
  proof
    assume "execute T_domains (domain_cols sid d) c = (Inl StoreError, c)"
    with st mk show ?thesis
      by (simp add: domain_step del: insert_domains_loop.simps)
  next
    assume "\<exists>i. execute T_domains (domain_cols sid d) c =
      (Inr i, c\<lparr>pending := pending c @ [\<lparr>tbl = T_domains, rid = i, cols = domain_cols sid d\<rparr>]\<rparr>)"
    then obtain i where "execute T_domains (domain_cols sid d) c =
      (Inr i, c\<lparr>pending := pending c @ [\<lparr>tbl = T_domains, rid = i, cols = domain_cols sid d\<rparr>]\<rparr>)"
      by blast
    with st mk have l: "insert_domains_loop ?rest m
        (c\<lparr>pending := pending c @ [\<lparr>tbl = T_domains, rid = i, cols = domain_cols sid d\<rparr>]\<rparr>) = (Inl e, c')"
      by (simp add: domain_step del: insert_domains_loop.simps)
    show ?thesis
      by (rule Cons.IH[OF l]) (use Cons.prems(2) in auto)
  qed
qed

lemma subgene_row_index: "map_of (subgene_row k sg) ''subgene_index'' = Some (PInt (int k))"
  by (simp add: subgene_row_def)

lemma domain_row_index: "map_of (domain_row k d) ''subgene_index'' = Some (PInt (int k))"
  by (simp add: domain_row_def)

lemma enumerate_indices:
  "map (\<lambda>s. map_of s ''subgene_index'') (map (\<lambda>(i, sg). subgene_row i sg) (enumerate k sgs)) =
   map (\<lambda>i. Some (PInt (int i))) [k..<k + length sgs]"
proof -
  have "map (\<lambda>s. map_of s ''subgene_index'') (map (\<lambda>(i, sg). subgene_row i sg) (enumerate k sgs)) =
        map (\<lambda>x. Some (PInt (int (fst x)))) (enumerate k sgs)"
    by (simp add: subgene_row_index case_prod_beta comp_def)
  also have "\<dots> = map (\<lambda>i. Some (PInt (int i))) (map fst (enumerate k sgs))"
    by (simp only: map_map comp_def)
  also have "\<dots> = map (\<lambda>i. Some (PInt (int i))) [k..<k + length sgs]"
    by (simp only: map_fst_enumerate)
  finally show ?thesis .
qed

lemma parsed_insert_result:
  assumes "insert_subgenes_domains (map (\<lambda>(i, sg). subgene_row i sg) (enumerate 0 sgs))
             (map (\<lambda>(i, d). domain_row i d) (nested_domains 0 sgs)) hid c = (x, c')"
  shows "x = Inr () \<or> x = Inl StoreError"
proof -
  let ?subs = "map (\<lambda>(i, sg). subgene_row i sg) (enumerate 0 sgs)"
  let ?doms = "map (\<lambda>(i, d). domain_row i d) (nested_domains 0 sgs)"
  obtain y c1 where l1: "insert_subgenes_loop ?subs hid Map.empty c = (y, c1)"
    by (cases "insert_subgenes_loop ?subs hid Map.empty c")
  show ?thesis
  proof (cases y)
    case (Inl e)
    with l1 insert_subgenes_loop_err[of 0 sgs hid Map.empty c e c1] assms show ?thesis
      by (auto simp: insert_subgenes_domains_def bindS_def)
  next
    case (Inr m)
    note ym = this
    from insert_subgenes_loop_ok[of 0 sgs hid Map.empty c m c1] l1 ym
    have res: "\<And>k d. (k, d) \<in> set (nested_domains 0 sgs) \<Longrightarrow> m (PInt (int k)) \<noteq> None"
      using nested_domains_bound[of _ _ 0 sgs] by fastforce
    obtain z c2 where l2: "insert_domains_loop ?doms m c1 = (z, c2)"
      by (cases "insert_domains_loop ?doms m c1")
    show ?thesis
    proof (cases z)
      case (Inl e)
      with l2 insert_domains_loop_err[of "nested_domains 0 sgs" m c1 e c2] res l1 ym assms show ?thesis
        by (auto simp: insert_subgenes_domains_def bindS_def)
    next
      case (Inr u)
      with assms l1 ym l2 have "commit c2 = (x, c')"
        by (simp add: insert_subgenes_domains_def bindS_def)
      from commit_committed[OF this] show ?thesis by auto
    qed
  qed
qed

text \<open>
  C10. When \<^verbatim>\<open>parse_subgenes_and_domains\<close> returns, its subgene records are those
  of the source subgenes in source order and carry the indices 0, 1, ..., n - 1; every
  domain record carries the index of one of them. So when
  \<^verbatim>\<open>insert_subgenes_domains\<close> is given the two lists, the lookup of each
  domain's index succeeds: the call ends without an exception or with the store's,
  never with a \<^verbatim>\<open>KeyError\<close>.
\<close>

theorem parsed_indices_resolve:
  assumes "parse_subgenes_and_domains chain_block = Inr (subgenes, domains)"
  shows "subgenes = map (\<lambda>(k, sg). subgene_row k sg) (enumerate 0 (src_list chain_block ''subgenes'')) \<and>
         map (\<lambda>s. map_of s ''subgene_index'') subgenes =
           map (\<lambda>k. Some (PInt (int k))) [0..<length subgenes] \<and>
         (\<forall>d \<in> set domains. \<exists>k < length subgenes. map_of d ''subgene_index'' = Some (PInt (int k))) \<and>
         (\<forall>herv_chain_id c.
            fst (insert_subgenes_domains subgenes domains herv_chain_id c) = Inr () \<or>
            fst (insert_subgenes_domains subgenes domains herv_chain_id c) = Inl StoreError)"
proof -
  let ?sgs = "src_list chain_block ''subgenes''"
  from parse_subgenes_and_domains_rows[OF assms]
  have s: "subgenes = map (\<lambda>(k, sg). subgene_row k sg) (enumerate 0 ?sgs)"
    and d: "domains = map (\<lambda>(i, d). domain_row i d) (nested_domains 0 ?sgs)"
    by simp_all
  have len: "length subgenes = length ?sgs"
    using s by simp
  have idx: "map (\<lambda>s. map_of s ''subgene_index'') subgenes =
           map (\<lambda>k. Some (PInt (int k))) [0..<length subgenes]"
    using enumerate_indices[of 0 ?sgs] s len by simp
  have dom: "\<forall>d \<in> set domains. \<exists>k < length subgenes. map_of d ''subgene_index'' = Some (PInt (int k))"
  proof
    fix r assume "r \<in> set domains"
    then obtain k x where kx: "(k, x) \<in> set (nested_domains 0 ?sgs)" and r: "r = domain_row k x"
      using d by auto
    from nested_domains_bound[OF kx] len have "k < length subgenes" by simp
    then show "\<exists>k < length subgenes. map_of r ''subgene_index'' = Some (PInt (int k))"
      using r domain_row_index by blast
  qed
  have ins: "fst (insert_subgenes_domains subgenes domains hid c) = Inr () \<or>
             fst (insert_subgenes_domains subgenes domains hid c) = Inl StoreError" for hid c
    using parsed_insert_result[of ?sgs hid c] s d
    by (cases "insert_subgenes_domains subgenes domains hid c") auto
  show ?thesis
    using s idx dom ins by blast
qed

theorem parsed_indices_resolve_witness:
  "\<exists>subgenes domains.
     parse_subgenes_and_domains example_chain_block = Inr (subgenes, domains) \<and>
     map (\<lambda>s. map_of s ''subgene_index'') subgenes = [Some (PInt 0), Some (PInt 1)] \<and>
     (fst (insert_subgenes_domains subgenes domains 7 serial_conn) = Inr () \<or>
      fst (insert_subgenes_domains subgenes domains 7 serial_conn) = Inl StoreError)"
proof -
  let ?S = "[subgene_row 0 example_gag, subgene_row 1 example_pol]"
  let ?D = "[domain_row 0 (PDict [(''idx'', PInt 10)]),
         domain_row 1 (PDict [(''idx'', PInt 20)]), domain_row 1 (PDict [(''idx'', PInt 30)])]"
  note t = parsed_indices_resolve[OF example_parse]
  have a: "map (\<lambda>s. map_of s ''subgene_index'') ?S = [Some (PInt 0), Some (PInt 1)]"
    using t[THEN conjunct2, THEN conjunct1] by (simp add: upt_rec)
  have b: "fst (insert_subgenes_domains ?S ?D 7 serial_conn) = Inr () \<or>
      fst (insert_subgenes_domains ?S ?D 7 serial_conn) = Inl StoreError"
    using t[THEN conjunct2, THEN conjunct2, THEN conjunct2] by (rule allE[of _ 7], elim allE[of _ serial_conn])
  show ?thesis
    by (rule exI[of _ ?S], rule exI[of _ ?D], intro conjI) (rule example_parse a b)+
qed

section \<open>A domain is linked to its own subgene\<close>

lemma insert_parsed_rows:
  assumes "insert_subgenes_domains (map (\<lambda>(i, sg). subgene_row i sg) (enumerate 0 sgs))
             (map (\<lambda>(i, d). domain_row i d) (nested_domains 0 sgs)) hid c = (Inr (), c')"
  shows "\<exists>sids dids. length sids = length sgs \<and> length dids = length (nested_domains 0 sgs) \<and>
           committed c' = committed c @ pending c @
             map (subgene_stored hid) (zip sids sgs) @
             map (domain_stored (\<lambda>k. sids ! k)) (zip dids (nested_domains 0 sgs))"
proof -
  let ?subs = "map (\<lambda>(i, sg). subgene_row i sg) (enumerate 0 sgs)"
  let ?nd = "nested_domains 0 sgs"
  let ?doms = "map (\<lambda>(i, d). domain_row i d) ?nd"
  from assms obtain m c1 c2 where l1: "insert_subgenes_loop ?subs hid Map.empty c = (Inr m, c1)"
    and l2: "insert_domains_loop ?doms m c1 = (Inr (), c2)"
    and l3: "commit c2 = (Inr (), c')"
    by (auto simp: insert_subgenes_domains_def bindS_def split: prod.splits sum.splits)
  from insert_subgenes_loop_ok[OF l1] obtain sids where sids: "length sids = length sgs"
    "c1 = c\<lparr>pending := pending c @ map (subgene_stored hid) (zip sids sgs)\<rparr>"
    "\<forall>j < length sgs. m (PInt (int (0 + j))) = Some (sids ! j)"
    by blast
  have res: "m (PInt (int k)) = Some (sids ! k)" if "(k, d) \<in> set ?nd" for k d
    using nested_domains_bound[OF that] sids(3) by simp
  from insert_domains_loop_ok[OF l2, of "\<lambda>k. sids ! k"] res obtain dids where
    dids: "length dids = length ?nd"
    "c2 = c1\<lparr>pending := pending c1 @ map (domain_stored (\<lambda>k. sids ! k)) (zip dids ?nd)\<rparr>"
    by blast
  from commit_committed[OF l3] have "c' = c2\<lparr>committed := committed c2 @ pending c2, pending := []\<rparr>"
    by simp
  then have "committed c' = committed c @ pending c @
             map (subgene_stored hid) (zip sids sgs) @
             map (domain_stored (\<lambda>k. sids ! k)) (zip dids ?nd)"
    using sids(2) dids(2) by simp
  then show ?thesis
    using sids(1) dids(1) by blast
qed

lemma subgene_stored_rid:
  "length ids = length xs \<Longrightarrow> map rid (map (subgene_stored hid) (zip ids xs)) = ids"
  by (induction ids xs rule: list_induct2) (simp_all add: subgene_stored_def)

lemma subgene_stored_tbl:
  "length ids = length xs \<Longrightarrow>
   map tbl (map (subgene_stored hid) (zip ids xs)) = replicate (length xs) T_subgenes"
  by (induction ids xs rule: list_induct2) (simp_all add: subgene_stored_def)

lemma subgene_stored_cols:
  "length ids = length xs \<Longrightarrow>
   map cols (map (subgene_stored hid) (zip ids xs)) = map (subgene_cols hid) xs"
  by (induction ids xs rule: list_induct2) (simp_all add: subgene_stored_def)

lemma domain_stored_tbl:
  "length ids = length ps \<Longrightarrow>
   map tbl (map (domain_stored f) (zip ids ps)) = replicate (length ps) T_domains"
  by (induction ids ps rule: list_induct2) (simp_all add: domain_stored_def split: prod.splits)

text \<open>
  C1. Take a chain block on which \<^verbatim>\<open>parse_subgenes_and_domains\<close> returns, and a
  successful \<^verbatim>\<open>insert_subgenes_domains\<close> of what it returned. The rows
  committed are one subgene row per subgene of the source, in source order, followed
  by one domain row per domain. The row of a domain nested under the subgene at
  position \<open>k\<close> holds, as \<^verbatim>\<open>subgene_id\<close>, the identifier the store returned for
  the row of that subgene; when the store's identifiers are distinct, it holds the
  identifier of no other subgene of the chain. The positional indices are 0, 1, ... in
  source order, from 0 for every chain block.
\<close>

theorem domain_parent_resolution:
  assumes "parse_subgenes_and_domains chain_block = Inr (subgenes, domains)"
    and "insert_subgenes_domains subgenes domains herv_chain_id c = (Inr (), c')"
  shows "\<exists>srows drows.
     committed c' = committed c @ pending c @ srows @ drows \<and>
     map tbl srows = replicate (length (src_list chain_block ''subgenes'')) T_subgenes \<and>
     map cols srows = map (subgene_cols herv_chain_id) (src_list chain_block ''subgenes'') \<and>
     map tbl drows = replicate (length (nested_domains 0 (src_list chain_block ''subgenes''))) T_domains \<and>
     (\<forall>i < length (nested_domains 0 (src_list chain_block ''subgenes'')).
        (case nested_domains 0 (src_list chain_block ''subgenes'') ! i of (k, d) \<Rightarrow>
           k < length srows \<and>
           cols (drows ! i) = domain_cols (rid (srows ! k)) d \<and>
           map_of (cols (drows ! i)) ''subgene_id'' = Some (PInt (rid (srows ! k))) \<and>
           (distinct (map rid srows) \<longrightarrow>
              (\<forall>j < length srows. j \<noteq> k \<longrightarrow>
                 map_of (cols (drows ! i)) ''subgene_id'' \<noteq> Some (PInt (rid (srows ! j))))))) \<and>
     map (\<lambda>s. map_of s ''subgene_index'') subgenes =
       map (\<lambda>k. Some (PInt (int k))) [0..<length (src_list chain_block ''subgenes'')]"
proof -
  let ?sgs = "src_list chain_block ''subgenes''"
  let ?nd = "nested_domains 0 ?sgs"
  from parse_subgenes_and_domains_rows[OF assms(1)]
  have s: "subgenes = map (\<lambda>(k, sg). subgene_row k sg) (enumerate 0 ?sgs)"
    and d: "domains = map (\<lambda>(i, d). domain_row i d) ?nd"
    by simp_all
  from insert_parsed_rows[of ?sgs herv_chain_id c c'] assms(2) s d obtain sids dids where
    len: "length sids = length ?sgs" "length dids = length ?nd"
    and com: "committed c' = committed c @ pending c @
             map (subgene_stored herv_chain_id) (zip sids ?sgs) @
             map (domain_stored (\<lambda>k. sids ! k)) (zip dids ?nd)"
    by auto
  let ?srows = "map (subgene_stored herv_chain_id) (zip sids ?sgs)"
  let ?drows = "map (domain_stored (\<lambda>k. sids ! k)) (zip dids ?nd)"
  have rid: "map rid ?srows = sids"
    using len(1) by (rule subgene_stored_rid)
  have a: "map tbl ?srows = replicate (length ?sgs) T_subgenes"
    using len(1) by (rule subgene_stored_tbl)
  have b: "map cols ?srows = map (subgene_cols herv_chain_id) ?sgs"
    using len(1) by (rule subgene_stored_cols)
  have c: "map tbl ?drows = replicate (length ?nd) T_domains"
    using len(2) by (rule domain_stored_tbl)
  have e: "case ?nd ! i of (k, d) \<Rightarrow>
           k < length ?srows \<and>
           cols (?drows ! i) = domain_cols (rid (?srows ! k)) d \<and>
           map_of (cols (?drows ! i)) ''subgene_id'' = Some (PInt (rid (?srows ! k))) \<and>
           (distinct (map rid ?srows) \<longrightarrow>
              (\<forall>j < length ?srows. j \<noteq> k \<longrightarrow>
                 map_of (cols (?drows ! i)) ''subgene_id'' \<noteq> Some (PInt (rid (?srows ! j)))))"
    if i: "i < length ?nd" for i
  proof -
    obtain k x where kx: "?nd ! i = (k, x)" by (cases "?nd ! i")
    then have "(k, x) \<in> set ?nd" using i by (metis nth_mem)
    from nested_domains_bound[OF this] have k: "k < length ?sgs" by simp
    have r: "rid (?srows ! j) = sids ! j" if "j < length ?sgs" for j
      using that len(1) by (simp add: subgene_stored_def)
    have dc: "cols (?drows ! i) = domain_cols (sids ! k) x"
      using i len(2) kx by (simp add: domain_stored_def)
    have fk: "map_of (domain_cols v x) ''subgene_id'' = Some (PInt v)" for v
      by (simp add: domain_cols_def)
    have sib: "map_of (cols (?drows ! i)) ''subgene_id'' \<noteq> Some (PInt (rid (?srows ! j)))"
      if "distinct (map rid ?srows)" "j < length ?srows" "j \<noteq> k" for j
    proof -
      from that(1) rid have "distinct sids" by simp
      then have "sids ! k \<noteq> sids ! j"
        using that(2,3) k len(1) by (simp add: nth_eq_iff_index_eq)
      then show ?thesis
        using dc fk r that(2) len(1) by simp
    qed
    show ?thesis
      using kx k len(1) dc fk r sib by simp
  qed
  have f: "map (\<lambda>s. map_of s ''subgene_index'') subgenes =
       map (\<lambda>k. Some (PInt (int k))) [0..<length ?sgs]"
    using enumerate_indices[of 0 ?sgs] s by simp
  show ?thesis
    using com a b c e f by blast
qed

theorem domain_parent_resolution_witness:
  "\<exists>subgenes domains c'.
     parse_subgenes_and_domains example_chain_block = Inr (subgenes, domains) \<and>
     insert_subgenes_domains subgenes domains 7 serial_conn = (Inr (), c') \<and>
     (\<exists>srows drows. committed c' = srows @ drows \<and>
        map tbl srows = [T_subgenes, T_subgenes] \<and>
        map_of (cols (drows ! 0)) ''subgene_id'' = Some (PInt (rid (srows ! 0))) \<and>
        map_of (cols (drows ! 1)) ''subgene_id'' = Some (PInt (rid (srows ! 1))) \<and>
        map_of (cols (drows ! 2)) ''subgene_id'' = Some (PInt (rid (srows ! 1))))"
proof -
  let ?S = "[subgene_row 0 example_gag, subgene_row 1 example_pol]"
  let ?D = "[domain_row 0 (PDict [(''idx'', PInt 10)]),
         domain_row 1 (PDict [(''idx'', PInt 20)]), domain_row 1 (PDict [(''idx'', PInt 30)])]"
  from example_insert obtain c' where i: "insert_subgenes_domains ?S ?D 7 serial_conn = (Inr (), c')"
    by blast
  from domain_parent_resolution[OF example_parse i] obtain srows drows where
    r: "committed c' = committed serial_conn @ pending serial_conn @ srows @ drows"
      "map tbl srows = replicate (length (src_list example_chain_block ''subgenes'')) T_subgenes"
      "\<forall>i < length (nested_domains 0 (src_list example_chain_block ''subgenes'')).
        (case nested_domains 0 (src_list example_chain_block ''subgenes'') ! i of (k, d) \<Rightarrow>
           k < length srows \<and>
           cols (drows ! i) = domain_cols (rid (srows ! k)) d \<and>
           map_of (cols (drows ! i)) ''subgene_id'' = Some (PInt (rid (srows ! k))) \<and>
           (distinct (map rid srows) \<longrightarrow>
              (\<forall>j < length srows. j \<noteq> k \<longrightarrow>
                 map_of (cols (drows ! i)) ''subgene_id'' \<noteq> Some (PInt (rid (srows ! j))))))"
    by blast
  have a: "committed c' = srows @ drows"
    using r(1) by (simp add: serial_conn_def)
  have b: "map tbl srows = [T_subgenes, T_subgenes]"
    using r(2) by (simp add: src_list_def example_chain_block_def)
  have f0: "map_of (cols (drows ! 0)) ''subgene_id'' = Some (PInt (rid (srows ! 0)))"
    using r(3)[rule_format, of 0] by (simp add: example_nested domain_cols_def)
  have f1: "map_of (cols (drows ! 1)) ''subgene_id'' = Some (PInt (rid (srows ! 1)))"
    using r(3)[rule_format, of 1] by (simp add: example_nested domain_cols_def)
  have f2: "map_of (cols (drows ! 2)) ''subgene_id'' = Some (PInt (rid (srows ! 1)))"
    using r(3)[rule_format, of 2] by (simp add: example_nested domain_cols_def)
  have ex: "\<exists>srows drows. committed c' = srows @ drows \<and>
        map tbl srows = [T_subgenes, T_subgenes] \<and>
        map_of (cols (drows ! 0)) ''subgene_id'' = Some (PInt (rid (srows ! 0))) \<and>
        map_of (cols (drows ! 1)) ''subgene_id'' = Some (PInt (rid (srows ! 1))) \<and>
        map_of (cols (drows ! 2)) ''subgene_id'' = Some (PInt (rid (srows ! 1)))"
    by (rule exI[of _ srows], rule exI[of _ drows], intro conjI) (rule a b f0 f1 f2)+
  show ?thesis
    by (rule exI[of _ ?S], rule exI[of _ ?D], rule exI[of _ c'], intro conjI)
       (rule example_parse i ex)+
qed

section \<open>An index that was never assigned\<close>

lemma insert_domains_loop_append:
  "insert_domains_loop (pre @ rest) m c =
     (case insert_domains_loop pre m c of
        (Inl e, c') \<Rightarrow> (Inl e, c')
      | (Inr u, c') \<Rightarrow> insert_domains_loop rest m c')"
  by (induction pre arbitrary: c) (auto split: sum.splits prod.splits option.splits)

lemma map_of_dict_set:
  "map_of (dict_set r k v) k' = (if k' = k then Some v else map_of r k')"
  by (induction r) auto

lemma map_of_dict_del:
  "map_of (dict_del k r) k' = (if k' = k then None else map_of r k')"
  by (induction r) (auto simp: dict_del_def)

lemma dict_pop_Inr:
  "dict_pop r k = Inr (v, r') \<longleftrightarrow> map_of r k = Some v \<and> r' = dict_del k r"
  by (auto simp: dict_pop_def split: option.splits)

lemma insert_subgenes_loop_keys:
  "insert_subgenes_loop subs hid m c = (Inr m', c') \<Longrightarrow> m' key \<noteq> None \<Longrightarrow>
   m key \<noteq> None \<or> (\<exists>s \<in> set subs. \<exists>v. map_of s ''subgene_index'' = Some v \<and> py_key v = Inr key)"
proof (induction subs arbitrary: m c)
  case Nil
  then show ?case by simp
next
  case (Cons s subs)
  from Cons.prems(1) obtain idx data i c1 k where
    p: "dict_pop (dict_set s ''herv_chain_id'' (PInt hid)) ''subgene_index'' = Inr (idx, data)"
    and k: "py_key idx = Inr k"
    and l: "insert_subgenes_loop subs hid (m(k \<mapsto> i)) c1 = (Inr m', c')"
    by (auto split: sum.splits prod.splits)
  from p have si: "map_of s ''subgene_index'' = Some idx"
    by (simp add: dict_pop_Inr map_of_dict_set)
  from Cons.IH[OF l Cons.prems(2)] show ?case
  proof
    assume "(m(k \<mapsto> i)) key \<noteq> None"
    then show ?thesis using si k by (cases "key = k") auto
  next
    assume "\<exists>s \<in> set subs. \<exists>v. map_of s ''subgene_index'' = Some v \<and> py_key v = Inr key"
    then show ?thesis by auto
  qed
qed

text \<open>
  C4, as the code has it. When the subgenes of the batch and the domains before it
  have gone through, a domain whose positional index no subgene of the batch was
  given ends \<^verbatim>\<open>insert_subgenes_domains\<close> with Python's \<^verbatim>\<open>KeyError\<close> carrying
  that index, and nothing of the batch is committed. The program has no
  \<^verbatim>\<open>ResolutionError\<close>.
\<close>

theorem unresolved_index_raises_KeyError:
  assumes "insert_subgenes_loop subgenes herv_chain_id Map.empty c = (Inr subgene_index_to_id, c1)"
    and "insert_domains_loop before subgene_index_to_id c1 = (Inr (), c2)"
    and "map_of domain ''subgene_index'' = Some idx"
    and "py_key idx = Inr key"
    and "\<forall>s \<in> set subgenes. \<forall>v. map_of s ''subgene_index'' = Some v \<longrightarrow> py_key v \<noteq> Inr key"
  shows "insert_subgenes_domains subgenes (before @ domain # rest) herv_chain_id c =
           (Inl (KeyError idx), c2) \<and>
         exc_name (KeyError idx) = ''KeyError'' \<and>
         committed c2 = committed c"
proof -
  have none: "subgene_index_to_id key = None"
  proof (rule ccontr)
    assume "subgene_index_to_id key \<noteq> None"
    from insert_subgenes_loop_keys[OF assms(1) this] assms(5) show False by auto
  qed
  have "insert_domains_loop (domain # rest) subgene_index_to_id c2 = (Inl (KeyError idx), c2)"
    using assms(3,4) none by (simp add: dict_pop_def)
  then have "insert_domains_loop (before @ domain # rest) subgene_index_to_id c1 = (Inl (KeyError idx), c2)"
    using assms(2) by (simp add: insert_domains_loop_append)
  then have r: "insert_subgenes_domains subgenes (before @ domain # rest) herv_chain_id c =
           (Inl (KeyError idx), c2)"
    using assms(1) by (simp add: insert_subgenes_domains_def bindS_def)
  from insert_subgenes_loop_frame[OF assms(1)] insert_domains_loop_frame[OF assms(2)]
  have "committed c2 = committed c" by auto
  with r show ?thesis by simp
qed

theorem resolution_error_counterexample:
  "fst (insert_subgenes_domains
          [[(''subgene_index'', PInt 0), (''name'', PStr ''gag'')]]
          [[(''subgene_index'', PInt 5), (''idx'', PInt 1)]] 7 serial_conn) = Inl (KeyError (PInt 5)) \<and>
   exc_name (KeyError (PInt 5)) \<noteq> ''ResolutionError''"
  by (simp add: insert_subgenes_domains_def bindS_def dict_pop_def dict_del_def execute_def
      serial_conn_def)

theorem unresolved_index_raises_KeyError_witness:
  "insert_subgenes_domains
     [[(''subgene_index'', PInt 0), (''name'', PStr ''gag'')]]
     ([[(''subgene_index'', PInt 0), (''idx'', PInt 1)]] @
       [(''subgene_index'', PInt 5), (''idx'', PInt 2)] # [[(''subgene_index'', PInt 0), (''idx'', PInt 3)]])
     7 serial_conn =
   (Inl (KeyError (PInt 5)),
    serial_conn\<lparr>pending :=
      [\<lparr>tbl = T_subgenes, rid = 1, cols = [(''name'', PStr ''gag''), (''herv_chain_id'', PInt 7)]\<rparr>,
       \<lparr>tbl = T_domains, rid = 2, cols = [(''idx'', PInt 1), (''subgene_id'', PInt 1)]\<rparr>]\<rparr>)"
proof -
  let ?c1 = "serial_conn\<lparr>pending :=
      [\<lparr>tbl = T_subgenes, rid = 1, cols = [(''name'', PStr ''gag''), (''herv_chain_id'', PInt 7)]\<rparr>]\<rparr>"
  let ?c2 = "serial_conn\<lparr>pending :=
      [\<lparr>tbl = T_subgenes, rid = 1, cols = [(''name'', PStr ''gag''), (''herv_chain_id'', PInt 7)]\<rparr>,
       \<lparr>tbl = T_domains, rid = 2, cols = [(''idx'', PInt 1), (''subgene_id'', PInt 1)]\<rparr>]\<rparr>"
  have h1: "insert_subgenes_loop [[(''subgene_index'', PInt 0), (''name'', PStr ''gag'')]] 7 Map.empty serial_conn =
        (Inr [PInt 0 \<mapsto> 1], ?c1)"
    by (simp add: dict_pop_def dict_del_def execute_def serial_conn_def)
  have h2: "insert_domains_loop [[(''subgene_index'', PInt 0), (''idx'', PInt 1)]] [PInt 0 \<mapsto> 1] ?c1 = (Inr (), ?c2)"
    by (simp add: dict_pop_def dict_del_def execute_def serial_conn_def)
  have h3: "map_of [(''subgene_index'', PInt 5), (''idx'', PInt 2)] ''subgene_index'' = Some (PInt 5)"
    by simp
  have h4: "py_key (PInt 5) = Inr (PInt 5)" by simp
  have h5: "\<forall>s \<in> set [[(''subgene_index'', PInt 0), (''name'', PStr ''gag'')]].
       \<forall>v. map_of s ''subgene_index'' = Some v \<longrightarrow> py_key v \<noteq> Inr (PInt 5)"
    by auto
  from unresolved_index_raises_KeyError[OF h1 h2 h3 h4 h5] show ?thesis by (rule conjunct1)
qed

section \<open>Insert loops and commits\<close>

lemma grows_trans: "grows c c1 a \<Longrightarrow> grows c1 c2 b \<Longrightarrow> grows c c2 (a @ b)"
  by (simp add: grows_def)

lemma commit_grows:
  "commit (c\<lparr>pending := pending c @ new\<rparr>) = (Inr u, c') \<Longrightarrow> grows c c' new"
  using commit_committed[of "c\<lparr>pending := pending c @ new\<rparr>" "Inr u" c']
  by (auto simp: grows_def)

lemma commit_fail:
  "commit (c\<lparr>pending := pending c @ new\<rparr>) = (Inl e, c') \<Longrightarrow> committed c' = committed c"
  using commit_committed[of "c\<lparr>pending := pending c @ new\<rparr>" "Inl e" c']
  by auto

lemma insert_ltrs_loop_ok:
  "insert_ltrs_loop ls hid c = (Inr u, c') \<Longrightarrow>
   \<exists>new. c' = c\<lparr>pending := pending c @ new\<rparr> \<and> map tbl new = replicate (length ls) T_ltr \<and>
     map cols new = map (ltr_cols hid) ls"
proof (induction ls arbitrary: c)
  case Nil
  then show ?case by (auto intro: exI[of _ "[]"])
next
  case (Cons l ls)
  from execute_cases[of T_ltr "ltr_cols hid l" c] Cons.prems obtain i where
    l: "insert_ltrs_loop ls hid (c\<lparr>pending := pending c @ [\<lparr>tbl = T_ltr, rid = i, cols = ltr_cols hid l\<rparr>]\<rparr>) = (Inr u, c')"
    by (auto simp: ltr_cols_def)
  from Cons.IH[OF l] obtain new where
    "c' = c\<lparr>pending := pending c @ (\<lparr>tbl = T_ltr, rid = i, cols = ltr_cols hid l\<rparr> # new)\<rparr>"
    "map tbl new = replicate (length ls) T_ltr" "map cols new = map (ltr_cols hid) ls"
    by auto
  then show ?case
    by (intro exI[of _ "\<lparr>tbl = T_ltr, rid = i, cols = ltr_cols hid l\<rparr> # new"]) simp
qed

lemma insert_ltrs_loop_frame:
  "insert_ltrs_loop ls hid c = (x, c') \<Longrightarrow> \<exists>new. c' = c\<lparr>pending := pending c @ new\<rparr>"
proof (induction ls arbitrary: c)
  case Nil
  then show ?case by (auto intro: exI[of _ "[]"])
next
  case (Cons l ls)
  from execute_cases[of T_ltr "ltr_cols hid l" c] show ?case
  proof
    assume "execute T_ltr (ltr_cols hid l) c = (Inl StoreError, c)"
    with Cons.prems show ?thesis by (auto simp: ltr_cols_def intro: exI[of _ "[]"])
  next
    assume "\<exists>i. execute T_ltr (ltr_cols hid l) c =
      (Inr i, c\<lparr>pending := pending c @ [\<lparr>tbl = T_ltr, rid = i, cols = ltr_cols hid l\<rparr>]\<rparr>)"
    then obtain i where "execute T_ltr (ltr_cols hid l) c =
      (Inr i, c\<lparr>pending := pending c @ [\<lparr>tbl = T_ltr, rid = i, cols = ltr_cols hid l\<rparr>]\<rparr>)"
      by blast
    with Cons.prems have "insert_ltrs_loop ls hid
       (c\<lparr>pending := pending c @ [\<lparr>tbl = T_ltr, rid = i, cols = ltr_cols hid l\<rparr>]\<rparr>) = (x, c')"
      by (simp add: ltr_cols_def)
    from Cons.IH[OF this] obtain new where
      "c' = c\<lparr>pending := pending c @ (\<lparr>tbl = T_ltr, rid = i, cols = ltr_cols hid l\<rparr> # new)\<rparr>"
      by auto
    then show ?thesis by blast
  qed
qed

lemma insert_motifs_loop_ok:
  "insert_motifs_loop ms hid c = (Inr u, c') \<Longrightarrow>
   \<exists>new. c' = c\<lparr>pending := pending c @ new\<rparr> \<and> map tbl new = replicate (length ms) T_motifs \<and>
     map cols new = map (\<lambda>m. dict_set m ''herv_chain_id'' (PInt hid)) ms"
proof (induction ms arbitrary: c)
  case Nil
  then show ?case by (auto intro: exI[of _ "[]"])
next
  case (Cons m ms)
  let ?r = "dict_set m ''herv_chain_id'' (PInt hid)"
  from execute_cases[of T_motifs ?r c] Cons.prems obtain i where
    l: "insert_motifs_loop ms hid (c\<lparr>pending := pending c @ [\<lparr>tbl = T_motifs, rid = i, cols = ?r\<rparr>]\<rparr>) = (Inr u, c')"
    by auto
  from Cons.IH[OF l] obtain new where
    "c' = c\<lparr>pending := pending c @ (\<lparr>tbl = T_motifs, rid = i, cols = ?r\<rparr> # new)\<rparr>"
    "map tbl new = replicate (length ms) T_motifs"
    "map cols new = map (\<lambda>m. dict_set m ''herv_chain_id'' (PInt hid)) ms"
    by auto
  then show ?case
    by (intro exI[of _ "\<lparr>tbl = T_motifs, rid = i, cols = ?r\<rparr> # new"]) simp
qed

lemma insert_motifs_loop_frame:
  "insert_motifs_loop ms hid c = (x, c') \<Longrightarrow> \<exists>new. c' = c\<lparr>pending := pending c @ new\<rparr>"
proof (induction ms arbitrary: c)
  case Nil
  then show ?case by (auto intro: exI[of _ "[]"])
next
  case (Cons m ms)
  let ?r = "dict_set m ''herv_chain_id'' (PInt hid)"
  from execute_cases[of T_motifs ?r c] show ?case
  proof
    assume "execute T_motifs ?r c = (Inl StoreError, c)"
    with Cons.prems show ?thesis by (auto intro: exI[of _ "[]"])
  next
    assume "\<exists>i. execute T_motifs ?r c =
      (Inr i, c\<lparr>pending := pending c @ [\<lparr>tbl = T_motifs, rid = i, cols = ?r\<rparr>]\<rparr>)"
    then obtain i where "execute T_motifs ?r c =
      (Inr i, c\<lparr>pending := pending c @ [\<lparr>tbl = T_motifs, rid = i, cols = ?r\<rparr>]\<rparr>)"
      by blast
    with Cons.prems have "insert_motifs_loop ms hid
       (c\<lparr>pending := pending c @ [\<lparr>tbl = T_motifs, rid = i, cols = ?r\<rparr>]\<rparr>) = (x, c')"
      by simp
    from Cons.IH[OF this] obtain new where
      "c' = c\<lparr>pending := pending c @ (\<lparr>tbl = T_motifs, rid = i, cols = ?r\<rparr> # new)\<rparr>"
      by auto
    then show ?thesis by blast
  qed
qed

lemma execute_tbl:
  "execute t r c = (x, c') \<Longrightarrow>
   \<exists>new. pending c' = pending c @ new \<and> list_all (\<lambda>s. tbl s = t) new"
  using execute_cases[of t r c] by auto

lemma insert_subgenes_loop_tbl:
  "insert_subgenes_loop subs hid m c = (x, c') \<Longrightarrow>
   \<exists>new. pending c' = pending c @ new \<and> list_all (\<lambda>s. tbl s = T_subgenes) new"
proof (induction subs arbitrary: m c)
  case Nil
  then show ?case by simp
next
  case (Cons s subs)
  show ?case
  proof (cases "dict_pop (dict_set s ''herv_chain_id'' (PInt hid)) ''subgene_index''")
    case (Inl e)
    with Cons.prems show ?thesis by auto
  next
    case (Inr p)
    obtain idx data where p: "p = (idx, data)" by (cases p)
    obtain y c1 where ex: "execute T_subgenes (dict_del ''chain_index'' data) c = (y, c1)"
      by (cases "execute T_subgenes (dict_del ''chain_index'' data) c")
    from execute_tbl[OF ex] obtain a where a: "pending c1 = pending c @ a"
      "list_all (\<lambda>s. tbl s = T_subgenes) a" by blast
    show ?thesis
    proof (cases "\<exists>i k. y = Inr i \<and> py_key idx = Inr k")
      case True
      then obtain i k where "y = Inr i" "py_key idx = Inr k" by blast
      with Cons.prems Inr p ex have "insert_subgenes_loop subs hid (m(k \<mapsto> i)) c1 = (x, c')" by simp
      from Cons.IH[OF this] obtain b where "pending c' = pending c1 @ b"
        "list_all (\<lambda>s. tbl s = T_subgenes) b" by blast
      with a show ?thesis by (intro exI[of _ "a @ b"]) simp
    next
      case False
      with Cons.prems Inr p ex have "c' = c1"
        by (auto split: sum.splits)
      with a show ?thesis by blast
    qed
  qed
qed

lemma insert_domains_loop_tbl:
  "insert_domains_loop ds m c = (x, c') \<Longrightarrow>
   \<exists>new. pending c' = pending c @ new \<and> list_all (\<lambda>s. tbl s = T_domains) new"
proof (induction ds arbitrary: c)
  case Nil
  then show ?case by simp
next
  case (Cons d ds)
  show ?case
  proof (cases "\<exists>idx data k sid. dict_pop d ''subgene_index'' = Inr (idx, data) \<and> py_key idx = Inr k \<and> m k = Some sid")
    case False
    with Cons.prems have "c' = c"
      by (auto split: sum.splits option.splits)
    then show ?thesis by simp
  next
    case True
    then obtain idx data k sid where h: "dict_pop d ''subgene_index'' = Inr (idx, data)"
      "py_key idx = Inr k" "m k = Some sid" by blast
    obtain y c1 where ex: "execute T_domains (dict_set data ''subgene_id'' (PInt sid)) c = (y, c1)"
      by (cases "execute T_domains (dict_set data ''subgene_id'' (PInt sid)) c")
    from execute_tbl[OF ex] obtain a where a: "pending c1 = pending c @ a"
      "list_all (\<lambda>s. tbl s = T_domains) a" by blast
    show ?thesis
    proof (cases y)
      case (Inl e)
      with Cons.prems h ex have "c' = c1" by simp
      with a show ?thesis by blast
    next
      case (Inr i)
      with Cons.prems h ex have "insert_domains_loop ds m c1 = (x, c')" by simp
      from Cons.IH[OF this] obtain b where "pending c' = pending c1 @ b"
        "list_all (\<lambda>s. tbl s = T_domains) b" by blast
      with a show ?thesis by (intro exI[of _ "a @ b"]) simp
    qed
  qed
qed

lemma insert_run_metadata_ok:
  "insert_run_metadata md c = (Inr i, c') \<Longrightarrow>
   grows c c' [\<lparr>tbl = T_run_metadata, rid = i, cols = md\<rparr>]"
  using execute_cases[of T_run_metadata md c]
  by (auto simp: insert_run_metadata_def bindS_def liftE_def split: prod.splits sum.splits dest: commit_grows)

lemma insert_run_metadata_fail:
  "insert_run_metadata md c = (Inl e, c') \<Longrightarrow> committed c' = committed c"
  using execute_cases[of T_run_metadata md c]
  by (auto simp: insert_run_metadata_def bindS_def liftE_def split: prod.splits sum.splits dest: commit_fail)

lemma insert_herv_chain_ok:
  "insert_herv_chain entry pk c = (Inr i, c') \<Longrightarrow>
   grows c c' [\<lparr>tbl = T_herv_chain, rid = i, cols = dict_set entry ''run_metadata_id'' (PInt pk)\<rparr>]"
  using execute_cases[of T_herv_chain "dict_set entry ''run_metadata_id'' (PInt pk)" c]
  by (auto simp: insert_herv_chain_def bindS_def liftE_def split: prod.splits sum.splits dest: commit_grows)

lemma insert_herv_chain_fail:
  "insert_herv_chain entry pk c = (Inl e, c') \<Longrightarrow> committed c' = committed c"
  using execute_cases[of T_herv_chain "dict_set entry ''run_metadata_id'' (PInt pk)" c]
  by (auto simp: insert_herv_chain_def bindS_def liftE_def split: prod.splits sum.splits dest: commit_fail)

lemma insert_ltrs_ok:
  assumes "insert_ltrs ls hid c = (Inr u, c')"
  shows "\<exists>new. grows c c' new \<and> map tbl new = replicate (length ls) T_ltr \<and>
           map cols new = map (ltr_cols hid) ls"
proof -
  from assms obtain c1 where l: "insert_ltrs_loop ls hid c = (Inr (), c1)" and k: "commit c1 = (Inr u, c')"
    by (auto simp: insert_ltrs_def bindS_def split: prod.splits sum.splits)
  from insert_ltrs_loop_ok[OF l] obtain new where n: "c1 = c\<lparr>pending := pending c @ new\<rparr>"
    "map tbl new = replicate (length ls) T_ltr" "map cols new = map (ltr_cols hid) ls" by blast
  from k n(1) have "grows c c' new" by (auto dest: commit_grows)
  with n show ?thesis by blast
qed

lemma insert_ltrs_fail:
  assumes "insert_ltrs ls hid c = (Inl e, c')"
  shows "committed c' = committed c"
proof -
  obtain y c1 where l: "insert_ltrs_loop ls hid c = (y, c1)" by (cases "insert_ltrs_loop ls hid c")
  from insert_ltrs_loop_frame[OF l] obtain new where n: "c1 = c\<lparr>pending := pending c @ new\<rparr>" by blast
  show ?thesis
    using assms l n by (cases y) (auto simp: insert_ltrs_def bindS_def dest: commit_fail)
qed

lemma insert_motifs_ok:
  assumes "insert_motifs ms hid c = (Inr u, c')"
  shows "\<exists>new. grows c c' new \<and> map tbl new = replicate (length ms) T_motifs \<and>
           map cols new = map (\<lambda>m. dict_set m ''herv_chain_id'' (PInt hid)) ms"
proof -
  from assms obtain c1 where l: "insert_motifs_loop ms hid c = (Inr (), c1)" and k: "commit c1 = (Inr u, c')"
    by (auto simp: insert_motifs_def bindS_def split: prod.splits sum.splits)
  from insert_motifs_loop_ok[OF l] obtain new where n: "c1 = c\<lparr>pending := pending c @ new\<rparr>"
    "map tbl new = replicate (length ms) T_motifs"
    "map cols new = map (\<lambda>m. dict_set m ''herv_chain_id'' (PInt hid)) ms" by blast
  from k n(1) have "grows c c' new" by (auto dest: commit_grows)
  with n show ?thesis by blast
qed

lemma insert_motifs_fail:
  assumes "insert_motifs ms hid c = (Inl e, c')"
  shows "committed c' = committed c"
proof -
  obtain y c1 where l: "insert_motifs_loop ms hid c = (y, c1)" by (cases "insert_motifs_loop ms hid c")
  from insert_motifs_loop_frame[OF l] obtain new where n: "c1 = c\<lparr>pending := pending c @ new\<rparr>" by blast
  show ?thesis
    using assms l n by (cases y) (auto simp: insert_motifs_def bindS_def dest: commit_fail)
qed

lemma insert_subgenes_domains_ok:
  assumes "insert_subgenes_domains subs doms hid c = (Inr u, c')"
  shows "\<exists>new. grows c c' new \<and> list_all (\<lambda>s. tbl s = T_subgenes \<or> tbl s = T_domains) new"
proof -
  from assms obtain m c1 c2 where l1: "insert_subgenes_loop subs hid Map.empty c = (Inr m, c1)"
    and l2: "insert_domains_loop doms m c1 = (Inr (), c2)"
    and l3: "commit c2 = (Inr u, c')"
    by (auto simp: insert_subgenes_domains_def bindS_def split: prod.splits sum.splits)
  from insert_subgenes_loop_frame[OF l1] insert_subgenes_loop_tbl[OF l1] obtain a where
    a: "c1 = c\<lparr>pending := pending c @ a\<rparr>" "list_all (\<lambda>s. tbl s = T_subgenes) a" by auto
  from insert_domains_loop_frame[OF l2] insert_domains_loop_tbl[OF l2] obtain b where
    b: "c2 = c1\<lparr>pending := pending c1 @ b\<rparr>" "list_all (\<lambda>s. tbl s = T_domains) b" by auto
  have "c2 = c\<lparr>pending := pending c @ (a @ b)\<rparr>" using a(1) b(1) by simp
  with l3 have "grows c c' (a @ b)" by (auto dest: commit_grows)
  moreover have "list_all (\<lambda>s. tbl s = T_subgenes \<or> tbl s = T_domains) (a @ b)"
    using a(2) b(2) by (auto simp: list_all_iff)
  ultimately show ?thesis by blast
qed

lemma insert_subgenes_domains_fail:
  "insert_subgenes_domains subs doms hid c = (Inl e, c') \<Longrightarrow> committed c' = committed c"
  using insert_subgenes_domains_atomic[of subs doms hid c "Inl e" c'] by auto

section \<open>What the LTR parser returns\<close>

lemma mapE_length: "mapE f xs = Inr ys \<Longrightarrow> length ys = length xs"
  by (induction xs arbitrary: ys) (auto split: sum.splits)

lemma solo_ltr_entry_str: "solo_ltr_entry (PStr s) = Inl AttributeError"
  by (simp add: solo_ltr_entry_def solo_ltr_fields_def py_get_def)

lemma chain_ltr_entry_str: "chain_ltr_entry k (PStr s) = Inl AttributeError"
  by (simp add: chain_ltr_entry_def chain_ltr_fields_def py_get_def)

lemma chain_ltrs_str: "chain_ltrs k (PStr s) = Inl AttributeError"
  by (simp add: chain_ltrs_def bindE_def py_get_def)

lemma chain_ltrs_rows:
  assumes "chain_ltrs k ch = Inr rs"
  shows "mapE (chain_ltr_entry k) (src_list ch ''LTRs'') = Inr rs"
proof -
  from assms obtain v xs where v: "py_get ch ''LTRs'' (PList []) = Inr v"
    and xs: "py_iter v = Inr xs" and m: "mapE (chain_ltr_entry k) xs = Inr rs"
    by (auto simp: chain_ltrs_def bindE_def split: sum.splits)
  have "xs = src_list ch ''LTRs''"
    using iter_src_list[OF v xs m] chain_ltr_entry_str by simp
  with m show ?thesis by simp
qed

lemma chains_ltrs_rows:
  "chains_ltrs k chs = Inr rs \<Longrightarrow>
   \<exists>full. length full = length chs \<and> rs = concat full \<and>
     (\<forall>j < length chs. mapE (chain_ltr_entry (k + j)) (src_list (chs ! j) ''LTRs'') = Inr (full ! j))"
proof (induction chs arbitrary: k rs)
  case Nil
  then show ?case by simp
next
  case (Cons ch chs)
  from Cons.prems obtain a b where a: "chain_ltrs k ch = Inr a"
    and b: "chains_ltrs (Suc k) chs = Inr b" and rs: "rs = a @ b"
    by (auto split: sum.splits)
  from Cons.IH[OF b] obtain full where f: "length full = length chs" "b = concat full"
    "\<forall>j < length chs. mapE (chain_ltr_entry (Suc k + j)) (src_list (chs ! j) ''LTRs'') = Inr (full ! j)"
    by blast
  have "\<forall>j < length (ch # chs).
      mapE (chain_ltr_entry (k + j)) (src_list ((ch # chs) ! j) ''LTRs'') = Inr ((a # full) ! j)"
  proof (intro allI impI)
    fix j assume "j < length (ch # chs)"
    then show "mapE (chain_ltr_entry (k + j)) (src_list ((ch # chs) ! j) ''LTRs'') = Inr ((a # full) ! j)"
      using chain_ltrs_rows[OF a] f(3) by (cases j) auto
  qed
  then show ?case
    using f(1,2) rs by (intro exI[of _ "a # full"]) simp
qed

lemma chains_ltrs_first: "chains_ltrs k (PStr s # ys) = Inl AttributeError"
  by (simp add: chain_ltrs_str)

lemma parse_ltrs_rows:
  assumes "parse_ltrs data = Inr ltrs"
  shows "\<exists>solo full.
     ltrs = solo @ concat full \<and>
     mapE solo_ltr_entry (src_list data ''soloLTRs'') = Inr solo \<and>
     length full = length (src_list data ''pseuGID'') \<and>
     (\<forall>j < length (src_list data ''pseuGID'').
        mapE (chain_ltr_entry j) (src_list (src_list data ''pseuGID'' ! j) ''LTRs'') = Inr (full ! j))"
proof -
  from assms obtain v xs solo w ys rs where
    v: "py_get data ''soloLTRs'' (PList []) = Inr v" and xs: "py_iter v = Inr xs"
    and solo: "mapE solo_ltr_entry xs = Inr solo"
    and w: "py_get data ''pseuGID'' (PList []) = Inr w" and ys: "py_iter w = Inr ys"
    and rs: "chains_ltrs 0 ys = Inr rs" and l: "ltrs = solo @ rs"
    by (auto simp: parse_ltrs_def bindE_def split: sum.splits)
  have x: "xs = src_list data ''soloLTRs''"
    using iter_src_list[OF v xs solo] solo_ltr_entry_str by simp
  have "ys \<noteq> PStr s # zs" for s zs
    using rs chains_ltrs_first by auto
  then have y: "ys = src_list data ''pseuGID''"
    by (rule iter_src_list_gen[OF w ys])
  from chains_ltrs_rows[OF rs] obtain full where "length full = length ys" "rs = concat full"
    "\<forall>j < length ys. mapE (chain_ltr_entry (0 + j)) (src_list (ys ! j) ''LTRs'') = Inr (full ! j)"
    by blast
  then show ?thesis
    using solo x y l by (intro exI[of _ solo] exI[of _ full]) simp
qed

lemma concat_lengths:
  "length fs = length xs \<Longrightarrow> (\<forall>j < length xs. length (fs ! j) = g (xs ! j)) \<Longrightarrow>
   length (concat fs) = sum_list (map g xs)"
proof (induction fs xs rule: list_induct2)
  case Nil
  then show ?case by simp
next
  case (Cons f fs x xs)
  have "length f = g x" using Cons.prems by force
  moreover have "\<forall>j < length xs. length (fs ! j) = g (xs ! j)" using Cons.prems by force
  ultimately show ?case using Cons.IH by simp
qed

lemma parse_ltrs_length:
  assumes "parse_ltrs data = Inr ltrs"
  shows "length ltrs = length (src_list data ''soloLTRs'') +
           sum_list (map (\<lambda>ch. length (src_list ch ''LTRs'')) (src_list data ''pseuGID''))"
proof -
  from parse_ltrs_rows[OF assms] obtain solo full where
    h: "ltrs = solo @ concat full" "mapE solo_ltr_entry (src_list data ''soloLTRs'') = Inr solo"
    "length full = length (src_list data ''pseuGID'')"
    "\<forall>j < length (src_list data ''pseuGID'').
        mapE (chain_ltr_entry j) (src_list (src_list data ''pseuGID'' ! j) ''LTRs'') = Inr (full ! j)"
    by blast
  have "\<forall>j < length (src_list data ''pseuGID'').
      length (full ! j) = length (src_list (src_list data ''pseuGID'' ! j) ''LTRs'')"
    using h(4) mapE_length by blast
  from concat_lengths[OF h(3), of "\<lambda>ch. length (src_list ch ''LTRs'')", OF this]
  show ?thesis using h(1) mapE_length[OF h(2)] by simp
qed

section \<open>Committed rows are never taken back\<close>

lemma keeps_liftE: "keeps_committed (liftE r)"
  by (simp add: keeps_committed_def liftE_def)

lemma keeps_bindS:
  assumes "keeps_committed m" and "\<And>x. keeps_committed (f x)"
  shows "keeps_committed (bindS m f)"
  unfolding keeps_committed_def
proof (intro allI impI)
  fix c x c' assume h: "bindS m f c = (x, c')"
  obtain y c1 where m: "m c = (y, c1)" by (cases "m c")
  from assms(1) m obtain a where a: "committed c1 = committed c @ a"
    unfolding keeps_committed_def by blast
  show "\<exists>more. committed c' = committed c @ more"
  proof (cases y)
    case (Inl e)
    with h m a show ?thesis by (auto simp: bindS_def)
  next
    case (Inr v)
    with h m have "f v c1 = (x, c')" by (simp add: bindS_def)
    with assms(2)[of v] obtain b where "committed c' = committed c1 @ b"
      unfolding keeps_committed_def by blast
    with a show ?thesis by simp
  qed
qed

lemma keeps_case_prod:
  "(\<And>a b. keeps_committed (f a b)) \<Longrightarrow> keeps_committed (case p of (a, b) \<Rightarrow> f a b)"
  by (cases p) simp

lemma keeps_of_cases:
  assumes "\<And>c u c'. m c = (Inr u, c') \<Longrightarrow> \<exists>new. grows c c' new"
    and "\<And>c e c'. m c = (Inl e, c') \<Longrightarrow> committed c' = committed c"
  shows "keeps_committed m"
  unfolding keeps_committed_def
proof (intro allI impI)
  fix c x c' assume h: "m c = (x, c')"
  show "\<exists>more. committed c' = committed c @ more"
  proof (cases x)
    case (Inl e)
    with h assms(2) show ?thesis by auto
  next
    case (Inr u)
    with h assms(1)[of c u c'] show ?thesis by (auto simp: grows_def)
  qed
qed

lemma keeps_insert_run_metadata: "keeps_committed (insert_run_metadata md)"
  by (rule keeps_of_cases) (blast dest: insert_run_metadata_ok insert_run_metadata_fail)+

lemma keeps_insert_herv_chain: "keeps_committed (insert_herv_chain e pk)"
  by (rule keeps_of_cases) (blast dest: insert_herv_chain_ok insert_herv_chain_fail)+

lemma keeps_insert_subgenes_domains: "keeps_committed (insert_subgenes_domains s d hid)"
  by (rule keeps_of_cases) (blast dest: insert_subgenes_domains_ok insert_subgenes_domains_fail)+

lemma keeps_insert_motifs: "keeps_committed (insert_motifs ms hid)"
  by (rule keeps_of_cases) (blast dest: insert_motifs_ok insert_motifs_fail)+

lemma keeps_insert_ltrs: "keeps_committed (insert_ltrs ls hid)"
  by (rule keeps_of_cases) (blast dest: insert_ltrs_ok insert_ltrs_fail)+

lemmas keeps_intros = keeps_bindS keeps_liftE keeps_case_prod keeps_insert_run_metadata
  keeps_insert_herv_chain keeps_insert_subgenes_domains keeps_insert_motifs keeps_insert_ltrs

lemma keeps_load_chain_block: "keeps_committed (load_chain_block lib data pk cb)"
  unfolding load_chain_block_def by (intro keeps_intros)

lemma keeps_load_chain_blocks: "keeps_committed (load_chain_blocks lib data pk cbs)"
proof (induction cbs)
  case Nil
  then show ?case by (simp add: keeps_committed_def)
next
  case (Cons cb cbs)
  have "load_chain_blocks lib data pk (cb # cbs) =
        bindS (load_chain_block lib data pk cb) (\<lambda>u. load_chain_blocks lib data pk cbs)"
    by (rule ext) (simp add: bindS_def split: prod.splits sum.splits)
  then show ?case
    using Cons.IH keeps_load_chain_block by (simp add: keeps_bindS)
qed

lemma keeps_parse_and_load: "keeps_committed (parse_and_load_retroctector lib data)"
  unfolding parse_and_load_retroctector_def by (intro keeps_intros keeps_load_chain_blocks)

lemma load_chain_blocks_append:
  "load_chain_blocks lib data pk (xs @ ys) c =
     (case load_chain_blocks lib data pk xs c of
        (Inl e, c') \<Rightarrow> (Inl e, c')
      | (Inr u, c') \<Rightarrow> load_chain_blocks lib data pk ys c')"
  by (induction xs arbitrary: c) (auto split: prod.splits sum.splits)

lemma ex_run: "\<exists>c1. insert_run_metadata [(''strand'', PStr ''+'')] serial_conn = (Inr 1, c1)"
  by (simp add: insert_run_metadata_def bindS_def liftE_def execute_def commit_def serial_conn_def)

lemma ex_batch_fail:
  "\<exists>c3. insert_subgenes_domains [subgene_row 0 example_gag] [domain_row 0 (PDict [(''idx'', PInt 10)])]
          7 picky_conn = (Inl StoreError, c3)"
  by (simp add: insert_subgenes_domains_def bindS_def subgene_step domain_step execute_def commit_def
      picky_conn_def del: insert_subgenes_loop.simps(2) insert_domains_loop.simps(2))

lemma ex_motifs:
  "\<exists>c4. insert_motifs [motif_row ''Slippery'' (PDict [])] 7 serial_conn = (Inr (), c4)"
  by (simp add: insert_motifs_def bindS_def execute_def commit_def serial_conn_def)

lemma ex_parse_ltrs: "parse_ltrs example_document = Inr []"
  by (simp add: parse_ltrs_def example_document_def example_chain_def bindE_def py_get_def chain_ltrs_def)

lemma ex_meta:
  "extract_herv_chain_metadata plain_lib (example_chain sgs) =
   Inr [(''chain_level'', PInt 1), (''chain_start_idx'', PInt 100), (''chain_end_idx'', PInt 900),
     (''retrovirus_type'', PStr ''K''), (''score'', PInt 5), (''type_of_chain'', PStr ''P''),
     (''integration_sites'', PNone)]"
  by (simp add: extract_herv_chain_metadata_def herv_chain_fields_def example_chain_def py_item_def
      py_get_def bindE_def)

lemma ex_parse_sd_empty: "parse_subgenes_and_domains (example_chain []) = Inr ([], [])"
  by (simp add: parse_subgenes_and_domains_def example_chain_def bindE_def py_get_def)

lemma ex_parse_sd_gag:
  "parse_subgenes_and_domains (example_chain [example_gag]) =
   Inr ([subgene_row 0 example_gag], [domain_row 0 (PDict [(''idx'', PInt 10)])])"
  by (simp add: parse_subgenes_and_domains_def example_chain_def example_gag_def bindE_def py_get_def
      parsed_subgene_dict parsed_domain_dict)

lemma ex_parse_motifs: "parse_motifs (example_chain sgs) = Inr []"
  by (simp add: parse_motifs_def motif_types_def motifs_of_type_def example_chain_def bindE_def py_get_def)

lemma ex_first_chain:
  "\<exists>c5. load_chain_blocks plain_lib example_document 1 [example_chain []] picky_conn = (Inr (), c5)"
  by (simp add: load_chain_block_def bindS_def liftE_def ex_meta ex_parse_sd_empty ex_parse_motifs ex_parse_ltrs
      insert_herv_chain_def insert_subgenes_domains_def insert_motifs_def insert_ltrs_def
      execute_def commit_def picky_conn_def)

lemma ex_second_chain:
  "\<exists>c6. load_chain_blocks plain_lib example_document 1 ([example_chain []] @ [example_chain [example_gag]])
          picky_conn = (Inl StoreError, c6)"
  by (simp add: load_chain_block_def bindS_def liftE_def ex_meta ex_parse_sd_empty ex_parse_sd_gag
      ex_parse_motifs ex_parse_ltrs subgene_step domain_step
      insert_herv_chain_def insert_subgenes_domains_def insert_motifs_def insert_ltrs_def
      execute_def commit_def picky_conn_def del: insert_subgenes_loop.simps(2) insert_domains_loop.simps(2))

lemma insert_subgenes_loop_count:
  "insert_subgenes_loop subs hid m c = (Inr m', c') \<Longrightarrow>
   length (pending c') = length (pending c) + length subs"
proof (induction subs arbitrary: m c)
  case Nil
  then show ?case by simp
next
  case (Cons s subs)
  from Cons.prems obtain idx data i c1 k where
    ex: "execute T_subgenes (dict_del ''chain_index'' data) c = (Inr i, c1)"
    and l: "insert_subgenes_loop subs hid (m(k \<mapsto> i)) c1 = (Inr m', c')"
    by (auto split: sum.splits prod.splits)
  from execute_cases[of T_subgenes "dict_del ''chain_index'' data" c] ex
  have "length (pending c1) = Suc (length (pending c))" by auto
  with Cons.IH[OF l] show ?case by simp
qed

lemma insert_domains_loop_count:
  "insert_domains_loop ds m c = (Inr u, c') \<Longrightarrow>
   length (pending c') = length (pending c) + length ds"
proof (induction ds arbitrary: c)
  case Nil
  then show ?case by simp
next
  case (Cons d ds)
  from Cons.prems obtain r i c1 where
    ex: "execute T_domains r c = (Inr i, c1)"
    and l: "insert_domains_loop ds m c1 = (Inr u, c')"
    by (auto split: sum.splits prod.splits option.splits)
  from execute_cases[of T_domains r c] ex
  have "length (pending c1) = Suc (length (pending c))" by auto
  with Cons.IH[OF l] show ?case by simp
qed

lemma insert_subgenes_domains_count:
  assumes "insert_subgenes_domains subs doms hid c = (Inr u, c')"
  shows "length (committed c') = length (committed c) + length (pending c) + length subs + length doms"
proof -
  from assms obtain m c1 c2 where l1: "insert_subgenes_loop subs hid Map.empty c = (Inr m, c1)"
    and l2: "insert_domains_loop doms m c1 = (Inr (), c2)"
    and l3: "commit c2 = (Inr u, c')"
    by (auto simp: insert_subgenes_domains_def bindS_def split: prod.splits sum.splits)
  from insert_subgenes_loop_frame[OF l1] insert_domains_loop_frame[OF l2]
  have "committed c2 = committed c" by auto
  moreover from commit_committed[OF l3] have "committed c' = committed c2 @ pending c2" by auto
  ultimately show ?thesis
    using insert_subgenes_loop_count[OF l1] insert_domains_loop_count[OF l2] by simp
qed

section \<open>Commits per logical group\<close>

text \<open>
  C3. The run insert, a chain's subgene and domain batch and a chain's motif batch each
  end with a commit: after a successful one nothing is pending and the group's rows
  are committed after the rows that were there. The subgene and domain batch is
  all-or-nothing: when it succeeds all its rows (one per subgene and per domain) are
  committed, and when any of its steps fails none is, also after the connection is
  closed. A failure in a later chain leaves the rows committed for the chains before
  it in place.
\<close>

theorem commits_per_group:
  "(insert_run_metadata metadata c = (Inr run_id, c1) \<longrightarrow>
      committed c1 = committed c @ pending c @ [\<lparr>tbl = T_run_metadata, rid = run_id, cols = metadata\<rparr>] \<and>
      pending c1 = []) \<and>
   (insert_subgenes_domains subgenes domains herv_chain_id c = (Inr (), c2) \<longrightarrow>
      pending c2 = [] \<and>
      (\<exists>batch. committed c2 = committed c @ pending c @ batch \<and>
         length batch = length subgenes + length domains \<and>
         list_all (\<lambda>s. tbl s = T_subgenes \<or> tbl s = T_domains) batch)) \<and>
   (insert_subgenes_domains subgenes domains herv_chain_id c = (Inl e, c3) \<longrightarrow>
      committed c3 = committed c \<and> committed (close c3) = committed c \<and> pending (close c3) = []) \<and>
   (insert_motifs motifs herv_chain_id c = (Inr (), c4) \<longrightarrow>
      pending c4 = [] \<and>
      (\<exists>batch. committed c4 = committed c @ pending c @ batch \<and>
         map tbl batch = replicate (length motifs) T_motifs)) \<and>
   (load_chain_blocks lib data run_id before c = (Inr (), c5) \<and>
    load_chain_blocks lib data run_id (before @ rest) c = (x, c6) \<longrightarrow>
      (\<exists>more. committed c6 = committed c5 @ more) \<and> committed (close c6) = committed c6)"
proof -
  have a: "insert_run_metadata metadata c = (Inr run_id, c1) \<longrightarrow>
      committed c1 = committed c @ pending c @ [\<lparr>tbl = T_run_metadata, rid = run_id, cols = metadata\<rparr>] \<and>
      pending c1 = []"
    using insert_run_metadata_ok[of metadata c run_id c1] by (simp add: grows_def)
  have b: "insert_subgenes_domains subgenes domains herv_chain_id c = (Inr (), c2) \<longrightarrow>
      pending c2 = [] \<and>
      (\<exists>batch. committed c2 = committed c @ pending c @ batch \<and>
         length batch = length subgenes + length domains \<and>
         list_all (\<lambda>s. tbl s = T_subgenes \<or> tbl s = T_domains) batch)"
  proof
    assume h: "insert_subgenes_domains subgenes domains herv_chain_id c = (Inr (), c2)"
    from insert_subgenes_domains_ok[OF h] obtain batch where
      g: "grows c c2 batch" "list_all (\<lambda>s. tbl s = T_subgenes \<or> tbl s = T_domains) batch" by blast
    from g(1) insert_subgenes_domains_count[OF h] have "length batch = length subgenes + length domains"
      by (simp add: grows_def)
    with g show "pending c2 = [] \<and>
      (\<exists>batch. committed c2 = committed c @ pending c @ batch \<and>
         length batch = length subgenes + length domains \<and>
         list_all (\<lambda>s. tbl s = T_subgenes \<or> tbl s = T_domains) batch)"
      unfolding grows_def by blast
  qed
  have d: "insert_subgenes_domains subgenes domains herv_chain_id c = (Inl e, c3) \<longrightarrow>
      committed c3 = committed c \<and> committed (close c3) = committed c \<and> pending (close c3) = []"
    using insert_subgenes_domains_fail[of subgenes domains herv_chain_id c e c3]
    by (simp add: close_def)
  have f: "insert_motifs motifs herv_chain_id c = (Inr (), c4) \<longrightarrow>
      pending c4 = [] \<and>
      (\<exists>batch. committed c4 = committed c @ pending c @ batch \<and>
         map tbl batch = replicate (length motifs) T_motifs)"
    using insert_motifs_ok[of motifs herv_chain_id c "()" c4] unfolding grows_def by blast
  have g: "load_chain_blocks lib data run_id before c = (Inr (), c5) \<and>
    load_chain_blocks lib data run_id (before @ rest) c = (x, c6) \<longrightarrow>
      (\<exists>more. committed c6 = committed c5 @ more) \<and> committed (close c6) = committed c6"
  proof
    assume h: "load_chain_blocks lib data run_id before c = (Inr (), c5) \<and>
      load_chain_blocks lib data run_id (before @ rest) c = (x, c6)"
    then have "load_chain_blocks lib data run_id rest c5 = (x, c6)"
      using load_chain_blocks_append[of lib data run_id before rest c] by auto
    with keeps_load_chain_blocks[of lib data run_id rest]
    have "\<exists>more. committed c6 = committed c5 @ more"
      unfolding keeps_committed_def by blast
    then show "(\<exists>more. committed c6 = committed c5 @ more) \<and> committed (close c6) = committed c6"
      by (simp add: close_def)
  qed
  show ?thesis
    using a b d f g by blast
qed

theorem commits_per_group_witness:
  "\<exists>c1 c2 c3 c4 c5 c6.
     insert_run_metadata [(''strand'', PStr ''+'')] serial_conn = (Inr 1, c1) \<and>
     committed c1 = [\<lparr>tbl = T_run_metadata, rid = 1, cols = [(''strand'', PStr ''+'')]\<rparr>] \<and>
     insert_subgenes_domains [subgene_row 0 example_gag, subgene_row 1 example_pol]
        [domain_row 0 (PDict [(''idx'', PInt 10)]),
         domain_row 1 (PDict [(''idx'', PInt 20)]), domain_row 1 (PDict [(''idx'', PInt 30)])]
        7 serial_conn = (Inr (), c2) \<and>
     length (committed c2) = 5 \<and>
     insert_subgenes_domains [subgene_row 0 example_gag] [domain_row 0 (PDict [(''idx'', PInt 10)])]
        7 picky_conn = (Inl StoreError, c3) \<and>
     committed (close c3) = [] \<and> pending (close c3) = [] \<and>
     insert_motifs [motif_row ''Slippery'' (PDict [])] 7 serial_conn = (Inr (), c4) \<and>
     map tbl (committed c4) = [T_motifs] \<and>
     load_chain_blocks plain_lib example_document 1 [example_chain []] picky_conn = (Inr (), c5) \<and>
     load_chain_blocks plain_lib example_document 1 ([example_chain []] @ [example_chain [example_gag]])
        picky_conn = (Inl StoreError, c6) \<and>
     (\<exists>more. committed c6 = committed c5 @ more)"
proof -
  let ?S = "[subgene_row 0 example_gag, subgene_row 1 example_pol]"
  let ?D = "[domain_row 0 (PDict [(''idx'', PInt 10)]),
         domain_row 1 (PDict [(''idx'', PInt 20)]), domain_row 1 (PDict [(''idx'', PInt 30)])]"
  let ?S1 = "[subgene_row 0 example_gag]"
  let ?D1 = "[domain_row 0 (PDict [(''idx'', PInt 10)])]"
  let ?M = "[motif_row ''Slippery'' (PDict [])]"
  let ?one = "[example_chain []]"
  let ?two = "[example_chain [example_gag]]"
  from ex_run obtain c1 where c1: "insert_run_metadata [(''strand'', PStr ''+'')] serial_conn = (Inr 1, c1)"
    by blast
  from example_insert obtain c2 where c2: "insert_subgenes_domains ?S ?D 7 serial_conn = (Inr (), c2)"
    by blast
  from ex_batch_fail obtain c3 where c3: "insert_subgenes_domains ?S1 ?D1 7 picky_conn = (Inl StoreError, c3)"
    by blast
  from ex_motifs obtain c4 where c4: "insert_motifs ?M 7 serial_conn = (Inr (), c4)"
    by blast
  from ex_first_chain obtain c5 where
    c5: "load_chain_blocks plain_lib example_document 1 ?one picky_conn = (Inr (), c5)"
    by blast
  from ex_second_chain obtain c6 where
    c6: "load_chain_blocks plain_lib example_document 1 (?one @ ?two) picky_conn = (Inl StoreError, c6)"
    by blast
  have r1: "committed c1 = [\<lparr>tbl = T_run_metadata, rid = 1, cols = [(''strand'', PStr ''+'')]\<rparr>]"
    using commits_per_group[of "[(''strand'', PStr ''+'')]" serial_conn 1 c1] c1
    by (simp add: serial_conn_def)
  have "\<exists>batch. committed c2 = committed serial_conn @ pending serial_conn @ batch \<and>
         length batch = length ?S + length ?D \<and>
         list_all (\<lambda>s. tbl s = T_subgenes \<or> tbl s = T_domains) batch"
    using commits_per_group[of _ serial_conn _ _ ?S ?D 7 c2] c2 by blast
  then have r2: "length (committed c2) = 5"
    by (auto simp: serial_conn_def)
  have "committed (close c3) = committed picky_conn \<and> pending (close c3) = []"
    using commits_per_group[of _ picky_conn _ _ ?S1 ?D1 7 _ StoreError c3] c3 by blast
  then have r3: "committed (close c3) = []" "pending (close c3) = []"
    by (simp_all add: picky_conn_def)
  have "\<exists>batch. committed c4 = committed serial_conn @ pending serial_conn @ batch \<and>
         map tbl batch = replicate (length ?M) T_motifs"
    using commits_per_group[of _ serial_conn _ _ _ _ 7 _ _ _ ?M c4] c4 by blast
  then have r4: "map tbl (committed c4) = [T_motifs]"
    by (auto simp: serial_conn_def)
  have r6: "\<exists>more. committed c6 = committed c5 @ more"
    using commits_per_group[of _ picky_conn 1 _ _ _ _ _ _ _ _ _ plain_lib example_document ?one c5 ?two
        "Inl StoreError" c6] c5 c6 by blast
  show ?thesis
    by (rule exI[of _ c1], rule exI[of _ c2], rule exI[of _ c3], rule exI[of _ c4], rule exI[of _ c5],
        rule exI[of _ c6], intro conjI)
       (rule c1 r1 c2 r2 c3 r3 c4 r4 c5 c6 r6)+
qed

section \<open>The LTR set is inserted once per chain\<close>

lemma of_table_append: "of_table t (xs @ ys) = of_table t xs @ of_table t ys"
  by (simp add: of_table_def)

lemma of_table_replicate:
  "map tbl rows = replicate n t \<Longrightarrow> of_table t' rows = (if t' = t then rows else [])"
proof (induction rows arbitrary: n)
  case Nil
  then show ?case by (simp add: of_table_def)
next
  case (Cons r rows)
  then obtain m where "n = Suc m" "tbl r = t" "map tbl rows = replicate m t"
    by (cases n) auto
  with Cons.IH[of m] show ?case by (auto simp: of_table_def)
qed

lemma of_table_other:
  "list_all (\<lambda>s. tbl s = T_subgenes \<or> tbl s = T_domains) rows \<Longrightarrow>
   of_table T_herv_chain rows = [] \<and> of_table T_ltr rows = []"
  by (induction rows) (auto simp: of_table_def)

lemma load_chain_block_ok:
  assumes "load_chain_block lib data pk cb c = (Inr u, c')"
  shows "\<exists>g ltrs cr. grows c c' g \<and> parse_ltrs data = Inr ltrs \<and>
           of_table T_herv_chain g = [cr] \<and>
           map cols (of_table T_ltr g) = map (ltr_cols (rid cr)) ltrs"
proof -
  from assms obtain md hid c1 subs doms c2 ms c3 ltrs where
    h: "insert_herv_chain md pk c = (Inr hid, c1)"
       "insert_subgenes_domains subs doms hid c1 = (Inr (), c2)"
       "insert_motifs ms hid c2 = (Inr (), c3)"
       "parse_ltrs data = Inr ltrs"
       "insert_ltrs ltrs hid c3 = (Inr u, c')"
    by (auto simp: load_chain_block_def bindS_def liftE_def split: prod.splits sum.splits)
  let ?cr = "\<lparr>tbl = T_herv_chain, rid = hid, cols = dict_set md ''run_metadata_id'' (PInt pk)\<rparr>"
  from insert_herv_chain_ok[OF h(1)] have g1: "grows c c1 [?cr]" .
  from insert_subgenes_domains_ok[OF h(2)] obtain sd where
    g2: "grows c1 c2 sd" "list_all (\<lambda>s. tbl s = T_subgenes \<or> tbl s = T_domains) sd" by blast
  from insert_motifs_ok[OF h(3)] obtain mr where
    g3: "grows c2 c3 mr" "map tbl mr = replicate (length ms) T_motifs" by blast
  from insert_ltrs_ok[OF h(5)] obtain lr where
    g4: "grows c3 c' lr" "map tbl lr = replicate (length ltrs) T_ltr"
        "map cols lr = map (ltr_cols hid) ltrs" by blast
  let ?g = "[?cr] @ sd @ mr @ lr"
  have g: "grows c c' ?g"
    using grows_trans[OF g1 grows_trans[OF g2(1) grows_trans[OF g3(1) g4(1)]]] by simp
  have a: "of_table T_herv_chain ?g = [?cr]"
    using of_table_other[OF g2(2)] of_table_replicate[OF g3(2), of T_herv_chain]
      of_table_replicate[OF g4(2), of T_herv_chain]
    by (simp add: of_table_append) (simp add: of_table_def)
  have b: "of_table T_ltr ?g = lr"
    using of_table_other[OF g2(2)] of_table_replicate[OF g3(2), of T_ltr]
      of_table_replicate[OF g4(2), of T_ltr]
    by (simp add: of_table_append) (simp add: of_table_def)
  have "map cols (of_table T_ltr ?g) = map (ltr_cols (rid ?cr)) ltrs"
    using b g4(3) by simp
  with g h(4) a show ?thesis by blast
qed

lemma load_chain_blocks_ok:
  "pending c = [] \<Longrightarrow> load_chain_blocks lib data pk cbs c = (Inr u, c') \<Longrightarrow>
   \<exists>new. committed c' = committed c @ new \<and> pending c' = [] \<and>
     length (of_table T_herv_chain new) = length cbs \<and>
     (\<forall>ltrs. parse_ltrs data = Inr ltrs \<longrightarrow>
        map cols (of_table T_ltr new) =
          concat (map (\<lambda>cr. map (ltr_cols (rid cr)) ltrs) (of_table T_herv_chain new))) \<and>
     (cbs \<noteq> [] \<longrightarrow> (\<exists>ltrs. parse_ltrs data = Inr ltrs)) \<and>
     (cbs = [] \<longrightarrow> new = [])"
proof (induction cbs arbitrary: c)
  case Nil
  then show ?case by (simp add: of_table_def)
next
  case (Cons cb cbs)
  from Cons.prems(2) obtain c1 where
    one: "load_chain_block lib data pk cb c = (Inr (), c1)"
    and rest: "load_chain_blocks lib data pk cbs c1 = (Inr u, c')"
    by (auto split: prod.splits sum.splits)
  from load_chain_block_ok[OF one] obtain g ltrs cr where
    g: "grows c c1 g" "parse_ltrs data = Inr ltrs" "of_table T_herv_chain g = [cr]"
       "map cols (of_table T_ltr g) = map (ltr_cols (rid cr)) ltrs" by blast
  from g(1) Cons.prems(1) have c1: "committed c1 = committed c @ g" "pending c1 = []"
    by (simp_all add: grows_def)
  from Cons.IH[OF c1(2) rest] obtain new where
    n: "committed c' = committed c1 @ new" "pending c' = []"
       "length (of_table T_herv_chain new) = length cbs"
       "\<forall>ltrs. parse_ltrs data = Inr ltrs \<longrightarrow>
        map cols (of_table T_ltr new) =
          concat (map (\<lambda>cr. map (ltr_cols (rid cr)) ltrs) (of_table T_herv_chain new))"
    by blast
  have a: "committed c' = committed c @ (g @ new)" using c1(1) n(1) by simp
  have b: "length (of_table T_herv_chain (g @ new)) = length (cb # cbs)"
    using g(3) n(3) by (simp add: of_table_append)
  have d: "\<forall>ltrs. parse_ltrs data = Inr ltrs \<longrightarrow>
        map cols (of_table T_ltr (g @ new)) =
          concat (map (\<lambda>cr. map (ltr_cols (rid cr)) ltrs) (of_table T_herv_chain (g @ new)))"
    using g(2,3,4) n(4) by (simp add: of_table_append)
  show ?case
    using a n(2) b d g(2) by blast
qed

lemma load_chain_blocks_first: "load_chain_blocks lib data pk (PStr s # ys) c = (Inl TypeError, c)"
  by (simp add: load_chain_block_def bindS_def liftE_def extract_herv_chain_metadata_def
      herv_chain_fields_def py_item_def)

lemma parse_and_load_ok:
  assumes "parse_and_load_retroctector lib data c = (Inr u, c')"
  shows "\<exists>new. committed c' = committed c @ pending c @ new \<and>
     length (of_table T_herv_chain new) = length (src_list data ''pseuGID'') \<and>
     (\<forall>ltrs. parse_ltrs data = Inr ltrs \<longrightarrow>
        map cols (of_table T_ltr new) =
          concat (map (\<lambda>cr. map (ltr_cols (rid cr)) ltrs) (of_table T_herv_chain new))) \<and>
     (src_list data ''pseuGID'' \<noteq> [] \<longrightarrow> (\<exists>ltrs. parse_ltrs data = Inr ltrs)) \<and>
     (src_list data ''pseuGID'' = [] \<longrightarrow> of_table T_ltr new = [])"
proof -
  from assms obtain md pk c1 v blocks where
    h: "insert_run_metadata md c = (Inr pk, c1)"
       "py_get data ''pseuGID'' (PList []) = Inr v" "py_iter v = Inr blocks"
       "load_chain_blocks lib data pk blocks c1 = (Inr u, c')"
    by (auto simp: parse_and_load_retroctector_def get_herv_chain_blocks_def bindS_def liftE_def
        split: prod.splits sum.splits)
  have "blocks \<noteq> PStr s # ys" for s ys
    using h(4) load_chain_blocks_first by auto
  then have bl: "blocks = src_list data ''pseuGID''"
    by (rule iter_src_list_gen[OF h(2,3)])
  let ?run = "\<lparr>tbl = T_run_metadata, rid = pk, cols = md\<rparr>"
  from insert_run_metadata_ok[OF h(1)] have c1: "committed c1 = committed c @ pending c @ [?run]"
    "pending c1 = []" by (simp_all add: grows_def)
  from load_chain_blocks_ok[OF c1(2) h(4)] obtain new where
    n: "committed c' = committed c1 @ new"
       "length (of_table T_herv_chain new) = length blocks"
       "\<forall>ltrs. parse_ltrs data = Inr ltrs \<longrightarrow>
        map cols (of_table T_ltr new) =
          concat (map (\<lambda>cr. map (ltr_cols (rid cr)) ltrs) (of_table T_herv_chain new))"
       "blocks \<noteq> [] \<longrightarrow> (\<exists>ltrs. parse_ltrs data = Inr ltrs)"
       "blocks = [] \<longrightarrow> new = []"
    by blast
  have t: "of_table t (?run # new) = of_table t new" if "t \<noteq> T_run_metadata" for t
    using that by (simp add: of_table_def)
  have "committed c' = committed c @ pending c @ (?run # new)"
    using c1(1) n(1) by simp
  then show ?thesis
    using n(2,3,4,5) bl by (intro exI[of _ "?run # new"]) (auto simp: t of_table_def)
qed

text \<open>
  C2. After a successful load the store holds one chain row per chain block of the
  document. When the document has chain blocks, the LTR set is what
  \<^verbatim>\<open>parse_ltrs\<close> returns on the whole document: the rows of all solo LTRs
  followed by the rows of the full LTRs of every chain, in chain order. The load
  inserts this whole set once per chain, the columns of each copy linked to the
  identifier generated for that chain: the LTR rows are, chain row by chain row, the
  set with that chain row's identifier, so that n chain blocks give n copies. (With no
  chain block, no LTR row is inserted.)
\<close>

theorem ltr_set_per_chain:
  assumes "parse_and_load_retroctector lib data c = (Inr (), c')"
  shows "\<exists>new.
     committed c' = committed c @ pending c @ new \<and>
     length (of_table T_herv_chain new) = length (src_list data ''pseuGID'') \<and>
     (src_list data ''pseuGID'' = [] \<longrightarrow> of_table T_ltr new = []) \<and>
     (src_list data ''pseuGID'' \<noteq> [] \<longrightarrow>
        (\<exists>ltrs solo full.
           parse_ltrs data = Inr ltrs \<and>
           ltrs = solo @ concat full \<and>
           mapE solo_ltr_entry (src_list data ''soloLTRs'') = Inr solo \<and>
           length full = length (src_list data ''pseuGID'') \<and>
           (\<forall>j < length (src_list data ''pseuGID'').
              mapE (chain_ltr_entry j) (src_list (src_list data ''pseuGID'' ! j) ''LTRs'') = Inr (full ! j)) \<and>
           length ltrs = length (src_list data ''soloLTRs'') +
             sum_list (map (\<lambda>chain. length (src_list chain ''LTRs'')) (src_list data ''pseuGID'')) \<and>
           map cols (of_table T_ltr new) =
             concat (map (\<lambda>chain_row. map (ltr_cols (rid chain_row)) ltrs) (of_table T_herv_chain new)) \<and>
           length (of_table T_ltr new) = length (src_list data ''pseuGID'') * length ltrs))"
proof -
  from parse_and_load_ok[OF assms] obtain new where
    n: "committed c' = committed c @ pending c @ new"
       "length (of_table T_herv_chain new) = length (src_list data ''pseuGID'')"
       "\<forall>ltrs. parse_ltrs data = Inr ltrs \<longrightarrow>
        map cols (of_table T_ltr new) =
          concat (map (\<lambda>cr. map (ltr_cols (rid cr)) ltrs) (of_table T_herv_chain new))"
       "src_list data ''pseuGID'' \<noteq> [] \<longrightarrow> (\<exists>ltrs. parse_ltrs data = Inr ltrs)"
       "src_list data ''pseuGID'' = [] \<longrightarrow> of_table T_ltr new = []"
    by blast
  have f: "\<exists>ltrs solo full.
           parse_ltrs data = Inr ltrs \<and>
           ltrs = solo @ concat full \<and>
           mapE solo_ltr_entry (src_list data ''soloLTRs'') = Inr solo \<and>
           length full = length (src_list data ''pseuGID'') \<and>
           (\<forall>j < length (src_list data ''pseuGID'').
              mapE (chain_ltr_entry j) (src_list (src_list data ''pseuGID'' ! j) ''LTRs'') = Inr (full ! j)) \<and>
           length ltrs = length (src_list data ''soloLTRs'') +
             sum_list (map (\<lambda>chain. length (src_list chain ''LTRs'')) (src_list data ''pseuGID'')) \<and>
           map cols (of_table T_ltr new) =
             concat (map (\<lambda>chain_row. map (ltr_cols (rid chain_row)) ltrs) (of_table T_herv_chain new)) \<and>
           length (of_table T_ltr new) = length (src_list data ''pseuGID'') * length ltrs"
    if ne: "src_list data ''pseuGID'' \<noteq> []"
  proof -
    from n(4) ne obtain ltrs where p: "parse_ltrs data = Inr ltrs" by blast
    from parse_ltrs_rows[OF p] obtain solo full where
      r: "ltrs = solo @ concat full" "mapE solo_ltr_entry (src_list data ''soloLTRs'') = Inr solo"
         "length full = length (src_list data ''pseuGID'')"
         "\<forall>j < length (src_list data ''pseuGID'').
            mapE (chain_ltr_entry j) (src_list (src_list data ''pseuGID'' ! j) ''LTRs'') = Inr (full ! j)"
      by blast
    from n(3) p have m: "map cols (of_table T_ltr new) =
          concat (map (\<lambda>cr. map (ltr_cols (rid cr)) ltrs) (of_table T_herv_chain new))" by blast
    have "length (concat (map (\<lambda>cr. map (ltr_cols (rid cr)) ltrs) rows)) = length rows * length ltrs"
      for rows :: "stored list"
      by (induction rows) simp_all
    from this[of "of_table T_herv_chain new"]
    have "length (map cols (of_table T_ltr new)) = length (of_table T_herv_chain new) * length ltrs"
      unfolding m .
    then have l: "length (of_table T_ltr new) = length (src_list data ''pseuGID'') * length ltrs"
      using n(2) by simp
    show ?thesis
      using p r parse_ltrs_length[OF p] m l by blast
  qed
  show ?thesis
    using n(1,2,5) f by blast
qed

lemma ltrdoc_ltrs: "\<exists>a b. parse_ltrs ltr_document = Inr [a, b]"
  by (simp add: parse_ltrs_def ltr_document_def example_ltr_chain_def example_chain_def bindE_def
      py_get_def py_item_def chain_ltrs_def solo_ltr_entry_def solo_ltr_fields_def
      chain_ltr_entry_def chain_ltr_fields_def)

lemma ltrdoc_run: "\<exists>md. parse_run_metadata plain_lib ltr_document = Inr md"
  by (simp add: parse_run_metadata_def run_metadata_fields_def ltr_document_def bindE_def py_get_def
      py_or_def parse_datetime_def)

lemma ltrdoc_meta: "\<exists>md. extract_herv_chain_metadata plain_lib example_ltr_chain = Inr md"
  by (simp add: extract_herv_chain_metadata_def herv_chain_fields_def example_ltr_chain_def py_item_def
      py_get_def bindE_def)

lemma ltrdoc_sd: "parse_subgenes_and_domains example_ltr_chain = Inr ([], [])"
  by (simp add: parse_subgenes_and_domains_def example_ltr_chain_def bindE_def py_get_def)

lemma ltrdoc_motifs: "parse_motifs example_ltr_chain = Inr []"
  by (simp add: parse_motifs_def motif_types_def motifs_of_type_def example_ltr_chain_def bindE_def py_get_def)

lemma ltrdoc_blocks:
  "get_herv_chain_blocks ltr_document = Inr (PList [example_ltr_chain, example_chain []])"
  by (simp add: get_herv_chain_blocks_def ltr_document_def py_get_def)

lemma ltrdoc_load:
  "\<exists>c'. parse_and_load_retroctector plain_lib ltr_document serial_conn = (Inr (), c')"
proof -
  from ltrdoc_ltrs obtain a b where l: "parse_ltrs ltr_document = Inr [a, b]" by blast
  from ltrdoc_run obtain md where r: "parse_run_metadata plain_lib ltr_document = Inr md" by blast
  from ltrdoc_meta obtain cm where m: "extract_herv_chain_metadata plain_lib example_ltr_chain = Inr cm"
    by blast
  show ?thesis
    by (simp add: parse_and_load_retroctector_def load_chain_block_def bindS_def liftE_def
        l r m ex_meta ltrdoc_sd ltrdoc_motifs ltrdoc_blocks ex_parse_sd_empty ex_parse_motifs
        insert_run_metadata_def insert_herv_chain_def insert_subgenes_domains_def insert_motifs_def
        insert_ltrs_def execute_def commit_def serial_conn_def)
qed

theorem ltr_set_per_chain_witness:
  "\<exists>c'. parse_and_load_retroctector plain_lib ltr_document serial_conn = (Inr (), c') \<and>
        length (of_table T_herv_chain (committed c')) = 2 \<and>
        length (of_table T_ltr (committed c')) = 4"
proof -
  from ltrdoc_load obtain c' where
    c': "parse_and_load_retroctector plain_lib ltr_document serial_conn = (Inr (), c')" by blast
  have two: "src_list ltr_document ''pseuGID'' = [example_ltr_chain, example_chain []]"
    by (simp add: src_list_def ltr_document_def)
  have solo: "length (src_list ltr_document ''soloLTRs'') = 1"
    by (simp add: src_list_def ltr_document_def)
  have full: "length (src_list example_ltr_chain ''LTRs'') = 1" "length (src_list (example_chain []) ''LTRs'') = 0"
    by (simp_all add: src_list_def example_ltr_chain_def example_chain_def)
  from ltr_set_per_chain[OF c'] obtain new where
    n: "committed c' = committed serial_conn @ pending serial_conn @ new"
       "length (of_table T_herv_chain new) = length (src_list ltr_document ''pseuGID'')"
       "src_list ltr_document ''pseuGID'' \<noteq> [] \<longrightarrow>
        (\<exists>ltrs solo full.
           parse_ltrs ltr_document = Inr ltrs \<and>
           ltrs = solo @ concat full \<and>
           mapE solo_ltr_entry (src_list ltr_document ''soloLTRs'') = Inr solo \<and>
           length full = length (src_list ltr_document ''pseuGID'') \<and>
           (\<forall>j < length (src_list ltr_document ''pseuGID'').
              mapE (chain_ltr_entry j) (src_list (src_list ltr_document ''pseuGID'' ! j) ''LTRs'') = Inr (full ! j)) \<and>
           length ltrs = length (src_list ltr_document ''soloLTRs'') +
             sum_list (map (\<lambda>chain. length (src_list chain ''LTRs'')) (src_list ltr_document ''pseuGID'')) \<and>
           map cols (of_table T_ltr new) =
             concat (map (\<lambda>chain_row. map (ltr_cols (rid chain_row)) ltrs) (of_table T_herv_chain new)) \<and>
           length (of_table T_ltr new) = length (src_list ltr_document ''pseuGID'') * length ltrs)"
    by blast
  have cn: "committed c' = new" using n(1) by (simp add: serial_conn_def)
  have ne: "src_list ltr_document ''pseuGID'' \<noteq> []" using two by simp
  from n(3)[rule_format, OF ne] have "\<exists>ltrs :: row list.
    length ltrs = length (src_list ltr_document ''soloLTRs'') +
             sum_list (map (\<lambda>chain. length (src_list chain ''LTRs'')) (src_list ltr_document ''pseuGID'')) \<and>
    length (of_table T_ltr new) = length (src_list ltr_document ''pseuGID'') * length ltrs"
    by (elim exE conjE) (rule exI, erule conjI, assumption)
  then have "length (of_table T_ltr new) = 4"
    using two solo full by auto
  moreover have "length (of_table T_herv_chain new) = 2"
    using n(2) two by simp
  ultimately show ?thesis
    using c' cn by (intro exI[of _ c']) simp
qed

section \<open>The command\<close>

text \<open>
  When a connection was opened, \<^verbatim>\<open>main\<close> closes it, whatever the load did, and
  the closing line is the last one printed.
\<close>

lemma main_closes_opened_connection:
  assumes "parse_args env = Inr path" and "connect env = Inr conn"
  shows "\<exists>c. connection (main lib env) = Some c \<and> closed c \<and> pending c = [] \<and>
             last (printed (main lib env)) = Closed"
proof -
  obtain out cv raised where t: "main_try lib env = (out, cv, raised)"
    by (cases "main_try lib env") auto
  have "cv \<noteq> None"
    using t assms by (auto simp: main_try_def split: sum.splits prod.splits)
  then obtain c0 where cv: "cv = Some c0" by auto
  have "\<exists>out' raised'. main_except (out, Some c0, raised) = (out', Some c0, raised')"
    by (cases raised) (simp_all add: main_except_def)
  then obtain out' raised' where e: "main_except (out, Some c0, raised) = (out', Some c0, raised')"
    by blast
  show ?thesis
    using t cv e by (simp add: main_def main_finally_def close_def)
qed

text \<open>
  C9, where the code departs from it. The local variable \<^verbatim>\<open>conn\<close> is bound only
  by the assignment inside the \<^verbatim>\<open>try\<close>. When \<^verbatim>\<open>psycopg2.connect\<close> raises,
  the handler prints the error, and then \<^verbatim>\<open>if conn:\<close> in the \<^verbatim>\<open>finally\<close>
  block reads the unbound variable: \<^verbatim>\<open>UnboundLocalError\<close> leaves \<^verbatim>\<open>main\<close>
  and no closing line is printed. When \<^verbatim>\<open>parse_args\<close> exits, nothing is printed
  at all and the same error leaves \<^verbatim>\<open>main\<close>.
\<close>

theorem main_connect_failure_escapes:
  "main lib \<lparr>parse_args = Inr ''run.json'', connect = Inl StoreError,
             load_retrotector_json = (\<lambda>path. Inl OSError)\<rparr> =
     \<lparr>printed = [Loading ''run.json'', Error StoreError],
      escaped = Some UnboundLocalError, connection = None\<rparr> \<and>
   main lib \<lparr>parse_args = Inl SystemExit, connect = Inl StoreError,
             load_retrotector_json = (\<lambda>path. Inl OSError)\<rparr> =
     \<lparr>printed = [], escaped = Some UnboundLocalError, connection = None\<rparr>"
  by (simp add: main_def main_try_def main_except_def main_finally_def)

end
